theory Spec2Isabelle
  imports Main "HOL-Library.Sublist"
begin

section \<open>Data frames\<close>

text \<open>
  The script keeps one pandas data frame. A cell is the missing marker (NaN), a Python
  string, or an observed number or boolean. The script never looks inside a number, so the
  type of numbers is left open as \<open>'n\<close>.
\<close>

datatype 'n cell = Missing | Text string | Num 'n

record 'n frame =
  columns :: "string list"
  rows :: "'n cell list list"

text \<open>
  The invariant of every frame that \<open>pd.read_csv\<close> builds: the column labels are pairwise
  different (the reader renames repeated header names) and every row has one cell per
  column.
\<close>

definition wf_frame :: "'n frame \<Rightarrow> bool" where
  "wf_frame df \<longleftrightarrow>
     distinct (columns df) \<and> list_all (\<lambda>r. length r = length (columns df)) (rows df)"

subsection \<open>The pandas operations the script calls\<close>

definition isna :: "'n cell \<Rightarrow> bool" where
  "isna c = (case c of Missing \<Rightarrow> True | _ \<Rightarrow> False)"

text \<open>\<open>df.dropna()\<close>: drops the rows (axis 0) in which any cell is missing.\<close>

definition dropna :: "'n frame \<Rightarrow> 'n frame" where
  "dropna df = df\<lparr>rows := filter (\<lambda>r. \<not> list_ex isna r) (rows df)\<rparr>"

text \<open>
  \<open>df.fillna(value, inplace=True)\<close>. What the call does depends on the pandas that is
  installed, which the script does not pin. pandas 1 and 2 raise ValueError for None and
  put a string into every column, upcasting a column of numbers. pandas 3 returns for None,
  and for a string raises TypeError at a column of numbers with a missing cell, after it
  has filled other columns in place. So the library says whether the call raises, with
  which text, and which columns (by position) it had filled by then. The frame afterwards
  follows from that: a string goes into the missing cells of the columns that were filled,
  all columns when the call returns; None leaves every cell as it is.
\<close>

definition fill_columns :: "(nat \<Rightarrow> bool) \<Rightarrow> string \<Rightarrow> 'n frame \<Rightarrow> 'n frame" where
  "fill_columns filled s df =
     df\<lparr>rows := map (\<lambda>r. map (\<lambda>(j, c). if isna c \<and> filled j then Text s else c)
                                (enumerate 0 r)) (rows df)\<rparr>"

definition fillna ::
  "(string option \<Rightarrow> 'n frame \<Rightarrow> (string \<times> nat list) option)
     \<Rightarrow> string option \<Rightarrow> 'n frame \<Rightarrow> string option \<times> 'n frame" where
  "fillna raises v df =
     (case raises v df of
        None \<Rightarrow> (None, case v of None \<Rightarrow> df | Some s \<Rightarrow> fill_columns (\<lambda>j. True) s df)
      | Some (e, filled) \<Rightarrow>
          (Some e, case v of None \<Rightarrow> df | Some s \<Rightarrow> fill_columns (\<lambda>j. j \<in> set filled) s df))"

text \<open>Position of the first label equal to \<open>c\<close>.\<close>

fun label_pos :: "string \<Rightarrow> string list \<Rightarrow> nat" where
  "label_pos c [] = 0"
| "label_pos c (x # xs) = (if x = c then 0 else Suc (label_pos c xs))"

text \<open>\<open>df[column]\<close> for a label of the frame: the cells of that column, one per row.\<close>

definition getitem :: "'n frame \<Rightarrow> string \<Rightarrow> 'n cell list" where
  "getitem df c = map (\<lambda>r. r ! label_pos c (columns df)) (rows df)"

text \<open>
  \<open>series == value\<close> with a string or None on the right: elementwise, true exactly for the
  string cells equal to the string. A number, a boolean or NaN never equals a string, and
  nothing equals None.
\<close>

definition eq_scalar :: "'n cell list \<Rightarrow> string option \<Rightarrow> bool list" where
  "eq_scalar s v =
     map (\<lambda>c. case v of None \<Rightarrow> False
               | Some x \<Rightarrow> (case c of Text t \<Rightarrow> t = x | _ \<Rightarrow> False)) s"

text \<open>\<open>df[mask]\<close> with a boolean series: the rows whose entry in the series is true, same columns.\<close>

definition getitem_mask :: "'n frame \<Rightarrow> bool list \<Rightarrow> 'n frame" where
  "getitem_mask df sel = df\<lparr>rows := map fst (filter snd (zip (rows df) sel))\<rparr>"

section \<open>The user, the console and the disk\<close>

datatype level = INFO | WARNING | ERROR

datatype view = Info | Describe | Simple | Pairplot | Histogram | Heatmap

text \<open>
  What the script does to the outside, in order: a line of the logger, a blocking message
  box (title and message), a printed string or frame, and a library report or chart of a
  frame (\<open>df.info()\<close>, \<open>df.describe()\<close>, \<open>plt.show()\<close>).
\<close>

datatype 'n event =
    Log level string
  | LogColumns "string list"
  | MessageBox level string string
  | Print string
  | PrintFrame "'n frame"
  | Display view "'n frame"

text \<open>
  The world holds the answers the user will give to the dialogs, in order (None is a
  cancelled dialog), the disk, and the events so far.
\<close>

record ('n, 'fs) world =
  answers :: "string option list"
  disk :: 'fs
  trace :: "'n event list"

text \<open>
  The calls into pandas, matplotlib and seaborn whose result the script only passes on:
  reading a path (a frame, or the text of the exception), writing a frame to a path (the
  text of the exception if any, and the disk afterwards), the reports and charts (the
  text of the exception if the call raises), and whether filling raises (the text of the
  exception and the positions of the columns filled before it).
\<close>

record ('n, 'fs) lib =
  read_csv :: "'fs \<Rightarrow> string \<Rightarrow> string + 'n frame"
  to_csv :: "'n frame \<Rightarrow> string \<Rightarrow> 'fs \<Rightarrow> string option \<times> 'fs"
  render :: "view \<Rightarrow> 'n frame \<Rightarrow> string option"
  fillna_raises :: "string option \<Rightarrow> 'n frame \<Rightarrow> (string \<times> nat list) option"

definition emit :: "'n event list \<Rightarrow> ('n, 'fs) world \<Rightarrow> ('n, 'fs) world" where
  "emit es w = w\<lparr>trace := trace w @ es\<rparr>"

text \<open>
  \<open>simpledialog.askstring\<close>: the next answer. The dialog blocks until the user answers, so
  with no answer left the call never returns (None).
\<close>

definition askstring :: "('n, 'fs) world \<Rightarrow> (string option \<times> ('n, 'fs) world) option" where
  "askstring w =
     (case answers w of [] \<Rightarrow> None | a # rest \<Rightarrow> Some (a, w\<lparr>answers := rest\<rparr>))"

text \<open>The file dialogs return the chosen path, or the empty string when cancelled.\<close>

definition askfilename :: "('n, 'fs) world \<Rightarrow> (string \<times> ('n, 'fs) world) option" where
  "askfilename w =
     (case askstring w of None \<Rightarrow> None
      | Some (a, w1) \<Rightarrow> Some (case a of None \<Rightarrow> [] | Some p \<Rightarrow> p, w1))"

text \<open>\<open>str(x)\<close> inside an f-string, for the answer of a dialog.\<close>

definition py_str :: "string option \<Rightarrow> string" where
  "py_str a = (case a of None \<Rightarrow> ''None'' | Some s \<Rightarrow> s)"

section \<open>The script\<close>

definition handle_missing_data ::
  "('n, 'fs) lib \<Rightarrow> 'n frame \<Rightarrow> ('n, 'fs) world \<Rightarrow> ('n frame \<times> ('n, 'fs) world) option" where
  "handle_missing_data lib df w =
     (case askstring w of None \<Rightarrow> None
      | Some (action, w1) \<Rightarrow>
          if action = Some ''drop'' then
            Some (dropna df,
                  emit [Log INFO ''Missing data rows dropped.'',
                        MessageBox INFO ''Success'' ''Rows with missing data were dropped.''] w1)
          else if action = Some ''fill'' then
            (case askstring w1 of None \<Rightarrow> None
             | Some (fill_value, w2) \<Rightarrow>
                 (case fillna (fillna_raises lib) fill_value df of
                    (None, df') \<Rightarrow>
                      Some (df',
                            emit [Log INFO (''Missing data filled with '' @ py_str fill_value @ ''.''),
                                  MessageBox INFO ''Success''
                                    (''Missing data filled with '' @ [CHR 0x27] @ py_str fill_value
                                       @ [CHR 0x27] @ ''.'')] w2)
                  | (Some e, df') \<Rightarrow>
                      Some (df',
                            emit [Log ERROR (''Error filling missing data: '' @ e),
                                  MessageBox ERROR ''Error''
                                    (''Could not fill missing data: '' @ e)] w2)))
          else if action = Some ''cancel'' then
            Some (df, emit [Log INFO ''Missing data handling canceled.''] w1)
          else
            Some (df, emit [Log WARNING ''Invalid input for missing data handling.''] w1))"

definition filter_data ::
  "'n frame \<Rightarrow> ('n, 'fs) world \<Rightarrow> ('n frame \<times> ('n, 'fs) world) option" where
  "filter_data df w =
     (case askstring w of None \<Rightarrow> None
      | Some (column, w1) \<Rightarrow>
          (case column of
             None \<Rightarrow> Some (df, emit [MessageBox ERROR ''Error'' ''Column not found.''] w1)
           | Some c \<Rightarrow>
               if c \<notin> set (columns df) then
                 Some (df, emit [MessageBox ERROR ''Error'' ''Column not found.''] w1)
               else
                 (case askstring w1 of None \<Rightarrow> None
                  | Some (v, w2) \<Rightarrow>
                      (let filtered_df = getitem_mask df (eq_scalar (getitem df c) v)
                       in Some (filtered_df,
                                emit [Log INFO (''Data filtered on '' @ c @ '' = '' @ py_str v @ ''.''),
                                      PrintFrame filtered_df] w2)))))"

definition load_csv ::
  "('n, 'fs) lib \<Rightarrow> ('n, 'fs) world \<Rightarrow> ('n frame option \<times> ('n, 'fs) world) option" where
  "load_csv lib w =
     (case askfilename w of None \<Rightarrow> None
      | Some (file_path, w1) \<Rightarrow>
          if file_path \<noteq> [] then
            (let w2 = emit [Log INFO (''File selected: '' @ file_path)] w1
             in case read_csv lib (disk w2) file_path of
                  Inr df \<Rightarrow> Some (Some df, emit [LogColumns (columns df)] w2)
                | Inl e \<Rightarrow>
                    Some (None,
                          emit [Log ERROR (''Error loading file: '' @ e),
                                MessageBox ERROR ''Error'' (''Could not load file: '' @ e)] w2))
          else Some (None, emit [Log INFO ''No file selected.''] w1))"

definition save_csv ::
  "('n, 'fs) lib \<Rightarrow> 'n frame \<Rightarrow> ('n, 'fs) world \<Rightarrow> ('n, 'fs) world option" where
  "save_csv lib df w =
     (case askfilename w of None \<Rightarrow> None
      | Some (file_path, w1) \<Rightarrow>
          if file_path \<noteq> [] then
            (case to_csv lib df file_path (disk w1) of
               (None, d) \<Rightarrow>
                 Some (emit [Log INFO (''File saved successfully: '' @ file_path),
                             MessageBox INFO ''Success''
                               (''File saved successfully to '' @ file_path)] (w1\<lparr>disk := d\<rparr>))
             | (Some e, d) \<Rightarrow>
                 Some (emit [Log ERROR (''Error saving file: '' @ e),
                             MessageBox ERROR ''Error'' (''Could not save file: '' @ e)]
                         (w1\<lparr>disk := d\<rparr>)))
          else Some (emit [Log INFO ''Save operation canceled.''] w1))"

definition display_data_info ::
  "('n, 'fs) lib \<Rightarrow> 'n frame \<Rightarrow> ('n, 'fs) world \<Rightarrow> ('n, 'fs) world" where
  "display_data_info lib df w =
     (case render lib Info df of
        None \<Rightarrow> emit [Display Info df, Print ''None'',
                      Log INFO ''Displayed DataFrame information.''] w
      | Some e \<Rightarrow> emit [Log ERROR (''Error displaying DataFrame info: '' @ e),
                        MessageBox ERROR ''Error'' (''Could not display data info: '' @ e)] w)"

definition describe_data ::
  "('n, 'fs) lib \<Rightarrow> 'n frame \<Rightarrow> ('n, 'fs) world \<Rightarrow> ('n, 'fs) world" where
  "describe_data lib df w =
     (case render lib Describe df of
        None \<Rightarrow> emit [Display Describe df,
                      MessageBox INFO ''Summary'' ''Statistical summary displayed in console.'',
                      Log INFO ''Displayed statistical summary.''] w
      | Some e \<Rightarrow> emit [Log ERROR (''Error displaying summary: '' @ e),
                        MessageBox ERROR ''Error'' (''Could not display summary: '' @ e)] w)"

definition plot_simple ::
  "('n, 'fs) lib \<Rightarrow> 'n frame \<Rightarrow> ('n, 'fs) world \<Rightarrow> ('n, 'fs) world" where
  "plot_simple lib df w =
     (case render lib Simple df of
        None \<Rightarrow> emit [Display Simple df] w
      | Some e \<Rightarrow> emit [Log ERROR (''Error plotting data: '' @ e),
                        MessageBox ERROR ''Error'' (''Could not plot data: '' @ e)] w)"

definition plot_pairplot ::
  "('n, 'fs) lib \<Rightarrow> 'n frame \<Rightarrow> ('n, 'fs) world \<Rightarrow> ('n, 'fs) world" where
  "plot_pairplot lib df w =
     (case render lib Pairplot df of
        None \<Rightarrow> emit [Display Pairplot df] w
      | Some e \<Rightarrow> emit [Log ERROR (''Error plotting pairplot: '' @ e),
                        MessageBox ERROR ''Error'' (''Could not plot pairplot: '' @ e)] w)"

definition plot_histogram ::
  "('n, 'fs) lib \<Rightarrow> 'n frame \<Rightarrow> ('n, 'fs) world \<Rightarrow> ('n, 'fs) world" where
  "plot_histogram lib df w =
     (case render lib Histogram df of
        None \<Rightarrow> emit [Display Histogram df] w
      | Some e \<Rightarrow> emit [Log ERROR (''Error plotting histograms: '' @ e),
                        MessageBox ERROR ''Error'' (''Could not plot histograms: '' @ e)] w)"

definition plot_heatmap ::
  "('n, 'fs) lib \<Rightarrow> 'n frame \<Rightarrow> ('n, 'fs) world \<Rightarrow> ('n, 'fs) world" where
  "plot_heatmap lib df w =
     (case render lib Heatmap df of
        None \<Rightarrow> emit [Display Heatmap df] w
      | Some e \<Rightarrow> emit [Log ERROR (''Error plotting heatmap: '' @ e),
                        MessageBox ERROR ''Error'' (''Could not plot heatmap: '' @ e)] w)"

text \<open>
  The two loops take one answer per round, so they are recursive on the number of answers
  left. A loop that is still asking when the answers run out has not returned (None).
\<close>

function user_plot_selection ::
  "('n, 'fs) lib \<Rightarrow> 'n frame \<Rightarrow> ('n, 'fs) world \<Rightarrow> ('n, 'fs) world option" where
  "user_plot_selection lib df w =
     (case askstring w of None \<Rightarrow> None
      | Some (plot_type, w1) \<Rightarrow>
          if plot_type = Some ''simple'' then user_plot_selection lib df (plot_simple lib df w1)
          else if plot_type = Some ''pairplot'' then
            user_plot_selection lib df (plot_pairplot lib df w1)
          else if plot_type = Some ''histogram'' then
            user_plot_selection lib df (plot_histogram lib df w1)
          else if plot_type = Some ''heatmap'' then
            user_plot_selection lib df (plot_heatmap lib df w1)
          else if plot_type = Some ''exit'' then Some w1
          else user_plot_selection lib df
                 (emit [MessageBox WARNING ''Invalid input'' ''Please enter a valid plot type.''] w1))"
  by pat_completeness auto

termination
  by (relation "measure (\<lambda>(lib, df, w). length (answers w))")
     (auto simp: askstring_def emit_def plot_simple_def plot_pairplot_def plot_histogram_def
        plot_heatmap_def split: list.splits option.splits)

declare user_plot_selection.simps [simp del]

text \<open>No procedure of the script gives the user answers back: the answers only shrink.\<close>

lemma user_plot_selection_answers:
  "user_plot_selection lib df w = Some w' \<Longrightarrow> length (answers w') \<le> length (answers w)"
proof (induction lib df w rule: user_plot_selection.induct)
  case (1 lib df w)
  show ?case
  proof (cases "answers w")
    case Nil
    with "1.prems" show ?thesis
      by (subst (asm) user_plot_selection.simps) (simp add: askstring_def)
  next
    case (Cons a rest)
    then have ask: "askstring w = Some (a, w\<lparr>answers := rest\<rparr>)"
      by (simp add: askstring_def)
    from "1.prems" have "user_plot_selection lib df w = Some w'" .
    then have run: "(if a = Some ''simple''
               then user_plot_selection lib df (plot_simple lib df (w\<lparr>answers := rest\<rparr>))
             else if a = Some ''pairplot''
               then user_plot_selection lib df (plot_pairplot lib df (w\<lparr>answers := rest\<rparr>))
             else if a = Some ''histogram''
               then user_plot_selection lib df (plot_histogram lib df (w\<lparr>answers := rest\<rparr>))
             else if a = Some ''heatmap''
               then user_plot_selection lib df (plot_heatmap lib df (w\<lparr>answers := rest\<rparr>))
             else if a = Some ''exit'' then Some (w\<lparr>answers := rest\<rparr>)
             else user_plot_selection lib df
                    (emit [MessageBox WARNING ''Invalid input'' ''Please enter a valid plot type.'']
                       (w\<lparr>answers := rest\<rparr>))) = Some w'"
      by (subst (asm) user_plot_selection.simps) (simp add: ask)
    from run "1.IH" [OF ask refl] Cons show ?thesis
      by (auto simp: emit_def plot_simple_def plot_pairplot_def plot_histogram_def
            plot_heatmap_def split: if_splits option.splits)
  qed
qed

lemma handle_missing_data_answers:
  "handle_missing_data lib df w = Some (df', w') \<Longrightarrow> length (answers w') \<le> length (answers w)"
  by (auto simp: handle_missing_data_def askstring_def emit_def
        split: list.splits if_splits prod.splits option.splits)

lemma filter_data_answers:
  "filter_data df w = Some (df', w') \<Longrightarrow> length (answers w') \<le> length (answers w)"
  by (auto simp: filter_data_def askstring_def emit_def Let_def
        split: list.splits if_splits option.splits)

lemma save_csv_answers:
  "save_csv lib df w = Some w' \<Longrightarrow> length (answers w') \<le> length (answers w)"
  by (auto simp: save_csv_def askfilename_def askstring_def emit_def
        split: list.splits if_splits option.splits prod.splits)

function main_loop ::
  "('n, 'fs) lib \<Rightarrow> 'n frame \<Rightarrow> ('n, 'fs) world \<Rightarrow> ('n frame \<times> ('n, 'fs) world) option" where
  "main_loop lib df w =
     (case askstring w of None \<Rightarrow> None
      | Some (action, w1) \<Rightarrow>
          if action = Some ''info'' then main_loop lib df (display_data_info lib df w1)
          else if action = Some ''summary'' then main_loop lib df (describe_data lib df w1)
          else if action = Some ''missing'' then
            (case handle_missing_data lib df w1 of None \<Rightarrow> None
             | Some (df', w2) \<Rightarrow> main_loop lib df' w2)
          else if action = Some ''filter'' then
            (case filter_data df w1 of None \<Rightarrow> None
             | Some (df', w2) \<Rightarrow> main_loop lib df' w2)
          else if action = Some ''save'' then
            (case save_csv lib df w1 of None \<Rightarrow> None
             | Some w2 \<Rightarrow> main_loop lib df w2)
          else if action = Some ''plot'' then
            (case user_plot_selection lib df w1 of None \<Rightarrow> None
             | Some w2 \<Rightarrow> main_loop lib df w2)
          else if action = Some ''exit'' then Some (df, w1)
          else main_loop lib df
                 (emit [MessageBox WARNING ''Invalid input'' ''Please enter a valid action.''] w1))"
  by pat_completeness auto
termination
proof (relation "measure (\<lambda>(lib, df, w). length (answers w))", goal_cases)
  case 1
  show ?case by simp
next
  case 2
  then show ?case
    by (auto simp: askstring_def emit_def display_data_info_def split: list.splits option.splits)
next
  case 3
  then show ?case
    by (auto simp: askstring_def emit_def describe_data_def split: list.splits option.splits)
next
  case (4 lib df w x a w1 y df' w2)
  then show ?case
    using handle_missing_data_answers [of lib df w1 df' w2]
    by (auto simp: askstring_def split: list.splits)
next
  case (5 lib df w x a w1 y df' w2)
  then show ?case
    using filter_data_answers [of df w1 df' w2]
    by (auto simp: askstring_def split: list.splits)
next
  case (6 lib df w x a w1 w2)
  then show ?case
    using save_csv_answers [of lib df w1 w2]
    by (auto simp: askstring_def split: list.splits)
next
  case (7 lib df w x a w1 w2)
  then show ?case
    using user_plot_selection_answers [of lib df w1 w2]
    by (auto simp: askstring_def split: list.splits)
next
  case 8
  then show ?case
    by (auto simp: askstring_def emit_def split: list.splits)
qed

declare main_loop.simps [simp del]

text \<open>
  \<open>main\<close> returns the frame the session ended with (None when no frame was loaded), for
  the theorems to speak about; the Python function returns nothing.
\<close>

definition main ::
  "('n, 'fs) lib \<Rightarrow> ('n, 'fs) world \<Rightarrow> ('n frame option \<times> ('n, 'fs) world) option" where
  "main lib w =
     (case load_csv lib (emit [Log INFO ''Application started.''] w) of
        None \<Rightarrow> None
      | Some (None, w1) \<Rightarrow> Some (None, emit [Log INFO ''Application ended.''] w1)
      | Some (Some df, w1) \<Rightarrow>
          (case main_loop lib df w1 of None \<Rightarrow> None
           | Some (df', w2) \<Rightarrow> Some (Some df', emit [Log INFO ''Application ended.''] w2)))"

section \<open>A small frame and a user, for running the script\<close>

definition example_frame :: "int frame" where
  "example_frame =
     \<lparr>columns = [''name'', ''city'', ''age''],
      rows = [[Text ''ann'', Text ''oslo'', Num 31],
              [Text ''bob'', Missing, Num 25],
              [Text ''cy'', Text ''oslo'', Missing],
              [Text ''dee'', Text ''rome'', Num 40]]\<rparr>"

definition user :: "string option list \<Rightarrow> (int, unit) world" where
  "user as = \<lparr>answers = as, disk = (), trace = []\<rparr>"

text \<open>Libraries that never raise, on a disk with nothing to read.\<close>

definition quiet_lib :: "(int, unit) lib" where
  "quiet_lib =
     \<lparr>read_csv = (\<lambda>d p. Inl ''No such file or directory''),
      to_csv = (\<lambda>df p d. (None, d)),
      render = (\<lambda>v df. None),
      fillna_raises = (\<lambda>v df. None)\<rparr>"

text \<open>
  The same with the filling of pandas 3, where the numbers are read into float64 columns:
  a column without a string in it is a column of numbers, and does not take a string.
\<close>

definition strict_fill :: "string option \<Rightarrow> int frame \<Rightarrow> (string \<times> nat list) option" where
  "strict_fill v df =
     (case v of
        None \<Rightarrow> None
      | Some s \<Rightarrow>
          (let width = length (columns df);
               of_numbers = (\<lambda>j. list_all (\<lambda>r. case r ! j of Text t \<Rightarrow> False | _ \<Rightarrow> True) (rows df));
               refused = filter (\<lambda>j. of_numbers j \<and> list_ex (\<lambda>r. isna (r ! j)) (rows df)) [0..<width]
           in if refused = [] then None
              else Some (''Invalid value '' @ [CHR 0x27] @ s @ [CHR 0x27] @ '' for dtype ''
                           @ [CHR 0x27] @ ''float64'' @ [CHR 0x27],
                         filter (\<lambda>j. \<not> of_numbers j) [0..<width])))"

definition strict_lib :: "(int, unit) lib" where
  "strict_lib = quiet_lib\<lparr>fillna_raises := strict_fill\<rparr>"

section \<open>Handling missing data\<close>

lemma askstring_Cons:
  "answers w = a # rest \<Longrightarrow> askstring w = Some (a, w\<lparr>answers := rest\<rparr>)"
  by (simp add: askstring_def)

lemma isna_iff: "isna c \<longleftrightarrow> c = Missing"
  by (cases c) (simp_all add: isna_def)

lemma fill_columns_shape:
  "columns (fill_columns filled s df) = columns df"
  "length (rows (fill_columns filled s df)) = length (rows df)"
  "i < length (rows df) \<Longrightarrow>
     length (rows (fill_columns filled s df) ! i) = length (rows df ! i)"
  by (simp_all add: fill_columns_def)

lemma fill_columns_cell:
  assumes "i < length (rows df)" and "j < length (rows df ! i)"
  shows "rows (fill_columns filled s df) ! i ! j
           = (if rows df ! i ! j = Missing \<and> filled j then Text s else rows df ! i ! j)"
  using assms by (simp add: fill_columns_def nth_enumerate_eq isna_iff)

text \<open>
  C2, as far as the library lets the script go. With the answers \<open>fill\<close> and then a literal
  \<open>v\<close>, the missing-data operation returns a frame with the same columns, the same number
  of rows and the same number of cells in each row, in which every cell is what it was, or
  was missing and is the string \<open>v\<close>. When the fill call returns, every cell that was
  missing is the string \<open>v\<close>, no cell is missing, and the success box is shown. When the
  fill call raises, the error box is shown with the text of the exception, and the missing
  cells of the columns that the library had filled by then are the string \<open>v\<close>, the other
  cells what they were.
\<close>

theorem fill_replaces_missing:
  assumes "answers w = Some ''fill'' # Some v # rest"
  shows "\<exists>df' w'. handle_missing_data lib df w = Some (df', w')
           \<and> answers w' = rest
           \<and> columns df' = columns df
           \<and> length (rows df') = length (rows df)
           \<and> (\<forall>i < length (rows df).
                 length (rows df' ! i) = length (rows df ! i)
                 \<and> (\<forall>j < length (rows df ! i).
                       rows df' ! i ! j = rows df ! i ! j
                       \<or> rows df ! i ! j = Missing \<and> rows df' ! i ! j = Text v))
           \<and> (fillna_raises lib (Some v) df = None \<longrightarrow>
                 (\<forall>i < length (rows df). \<forall>j < length (rows df ! i).
                    rows df' ! i ! j
                      = (if rows df ! i ! j = Missing then Text v else rows df ! i ! j))
                 \<and> (\<forall>r \<in> set (rows df'). Missing \<notin> set r)
                 \<and> trace w' = trace w @
                      [Log INFO (''Missing data filled with '' @ v @ ''.''),
                       MessageBox INFO ''Success''
                         (''Missing data filled with '' @ [CHR 0x27] @ v @ [CHR 0x27] @ ''.'')])
           \<and> (\<forall>e filled. fillna_raises lib (Some v) df = Some (e, filled) \<longrightarrow>
                 (\<forall>i < length (rows df). \<forall>j < length (rows df ! i).
                    rows df' ! i ! j
                      = (if rows df ! i ! j = Missing \<and> j \<in> set filled then Text v
                         else rows df ! i ! j))
                 \<and> trace w' = trace w @
                      [Log ERROR (''Error filling missing data: '' @ e),
                       MessageBox ERROR ''Error'' (''Could not fill missing data: '' @ e)])"
proof (cases "fillna_raises lib (Some v) df")
  case None
  let ?df' = "fill_columns (\<lambda>j. True) v df"
  let ?w' = "emit [Log INFO (''Missing data filled with '' @ v @ ''.''),
                   MessageBox INFO ''Success''
                     (''Missing data filled with '' @ [CHR 0x27] @ v @ [CHR 0x27] @ ''.'')]
               (w\<lparr>answers := rest\<rparr>)"
  have run: "handle_missing_data lib df w = Some (?df', ?w')"
    using assms None by (simp add: handle_missing_data_def askstring_def fillna_def py_str_def)
  have cell: "rows ?df' ! i ! j = (if rows df ! i ! j = Missing then Text v else rows df ! i ! j)"
    if "i < length (rows df)" "j < length (rows df ! i)" for i j
    using that by (simp add: fill_columns_cell)
  have "Missing \<notin> set r" if "r \<in> set (rows ?df')" for r
  proof
    assume "Missing \<in> set r"
    from that obtain i where i: "i < length (rows df)" and r: "r = rows ?df' ! i"
      by (auto simp: in_set_conv_nth fill_columns_shape)
    from \<open>Missing \<in> set r\<close> obtain j where "j < length r" and "r ! j = Missing"
      by (auto simp: in_set_conv_nth)
    with i r have "j < length (rows df ! i)" and "rows ?df' ! i ! j = Missing"
      by (simp_all add: fill_columns_shape)
    with cell [OF i] show False
      by (simp split: if_splits)
  qed
  with run None cell show ?thesis
    by (simp add: fill_columns_shape emit_def)
next
  case (Some raised)
  obtain e filled where raised: "raised = (e, filled)"
    by (cases raised)
  let ?df' = "fill_columns (\<lambda>j. j \<in> set filled) v df"
  let ?w' = "emit [Log ERROR (''Error filling missing data: '' @ e),
                   MessageBox ERROR ''Error'' (''Could not fill missing data: '' @ e)]
               (w\<lparr>answers := rest\<rparr>)"
  have run: "handle_missing_data lib df w = Some (?df', ?w')"
    using assms Some raised
    by (simp add: handle_missing_data_def askstring_def fillna_def)
  have cell: "rows ?df' ! i ! j
                = (if rows df ! i ! j = Missing \<and> j \<in> set filled then Text v else rows df ! i ! j)"
    if "i < length (rows df)" "j < length (rows df ! i)" for i j
    using that by (simp add: fill_columns_cell)
  from run Some raised cell show ?thesis
    by (simp add: fill_columns_shape emit_def)
qed

text \<open>
  The claim as the specification states it fails where the fill call raises. With the
  filling of pandas 3, the city of bob is filled, the age of cy is still missing, and the
  script shows the error box.
\<close>

theorem fill_stops_at_numbers:
  "handle_missing_data strict_lib example_frame (user [Some ''fill'', Some ''?'']) =
     Some (\<lparr>columns = [''name'', ''city'', ''age''],
            rows = [[Text ''ann'', Text ''oslo'', Num 31],
                    [Text ''bob'', Text ''?'', Num 25],
                    [Text ''cy'', Text ''oslo'', Missing],
                    [Text ''dee'', Text ''rome'', Num 40]]\<rparr>,
           \<lparr>answers = [], disk = (),
            trace = [Log ERROR (''Error filling missing data: Invalid value '?' for dtype 'float64''
                                  @ [CHR 0x27]),
                     MessageBox ERROR ''Error''
                       (''Could not fill missing data: Invalid value '?' for dtype 'float64''
                          @ [CHR 0x27])]\<rparr>)"
  by code_simp

theorem fill_replaces_missing_witness:
  "(\<exists>w'. handle_missing_data quiet_lib example_frame (user [Some ''fill'', Some ''?'']) =
      Some (\<lparr>columns = [''name'', ''city'', ''age''],
             rows = [[Text ''ann'', Text ''oslo'', Num 31],
                     [Text ''bob'', Text ''?'', Num 25],
                     [Text ''cy'', Text ''oslo'', Text ''?''],
                     [Text ''dee'', Text ''rome'', Num 40]]\<rparr>, w'))
   \<and> (\<exists>df' w'. handle_missing_data strict_lib example_frame (user [Some ''fill'', Some ''?''])
                   = Some (df', w')
          \<and> rows df' ! 1 ! 1 = Text ''?'' \<and> rows df' ! 2 ! 2 = Missing)"
proof -
  let ?w = "user [Some ''fill'', Some ''?'']"
  have h: "answers ?w = Some ''fill'' # Some ''?'' # []"
    by (simp add: user_def)
  have quiet: "fillna_raises quiet_lib (Some ''?'') example_frame = None"
    by (simp add: quiet_lib_def)
  have strict: "fillna_raises strict_lib (Some ''?'') example_frame
                  = Some (''Invalid value '?' for dtype 'float64'' @ [CHR 0x27], [0, 1])"
    by code_simp
  from fill_replaces_missing [OF h, of quiet_lib example_frame]
  obtain df' w' where run: "handle_missing_data quiet_lib example_frame ?w = Some (df', w')"
    by blast
  have "map_option fst (handle_missing_data quiet_lib example_frame ?w) =
      Some \<lparr>columns = [''name'', ''city'', ''age''],
             rows = [[Text ''ann'', Text ''oslo'', Num 31],
                     [Text ''bob'', Text ''?'', Num 25],
                     [Text ''cy'', Text ''oslo'', Text ''?''],
                     [Text ''dee'', Text ''rome'', Num 40]]\<rparr>"
    by code_simp
  with run have first: "\<exists>w'. handle_missing_data quiet_lib example_frame ?w =
      Some (\<lparr>columns = [''name'', ''city'', ''age''],
             rows = [[Text ''ann'', Text ''oslo'', Num 31],
                     [Text ''bob'', Text ''?'', Num 25],
                     [Text ''cy'', Text ''oslo'', Text ''?''],
                     [Text ''dee'', Text ''rome'', Num 40]]\<rparr>, w')"
    by simp
  from fill_replaces_missing [OF h, of strict_lib example_frame]
  obtain df2 w2 where run2: "handle_missing_data strict_lib example_frame ?w = Some (df2, w2)"
    and cells2: "\<forall>e filled. fillna_raises strict_lib (Some ''?'') example_frame = Some (e, filled) \<longrightarrow>
                 (\<forall>i < length (rows example_frame). \<forall>j < length (rows example_frame ! i).
                    rows df2 ! i ! j
                      = (if rows example_frame ! i ! j = Missing \<and> j \<in> set filled then Text ''?''
                         else rows example_frame ! i ! j))
                 \<and> trace w2 = trace ?w @
                      [Log ERROR (''Error filling missing data: '' @ e),
                       MessageBox ERROR ''Error'' (''Could not fill missing data: '' @ e)]"
    by blast
  from cells2 strict
  have at: "\<forall>i < length (rows example_frame). \<forall>j < length (rows example_frame ! i).
                    rows df2 ! i ! j
                      = (if rows example_frame ! i ! j = Missing \<and> j \<in> set [0, 1] then Text ''?''
                         else rows example_frame ! i ! j)"
    by blast
  from at [rule_format, of 1 1] at [rule_format, of 2 2]
  have "rows df2 ! 1 ! 1 = Text ''?'' \<and> rows df2 ! 2 ! 2 = Missing"
    by (simp add: example_frame_def)
  with run2 first show ?thesis by blast
qed

text \<open>
  C3. With the answer \<open>drop\<close>, the missing-data operation returns the frame whose rows are
  exactly the rows without a missing cell, in their order. It has at most as many rows as
  before, and no cell of it is missing.
\<close>

theorem drop_removes_rows_with_missing:
  assumes "answers w = Some ''drop'' # rest"
  shows "\<exists>df' w'. handle_missing_data lib df w = Some (df', w')
           \<and> answers w' = rest
           \<and> rows df' = filter (\<lambda>r. Missing \<notin> set r) (rows df)
           \<and> length (rows df') \<le> length (rows df)
           \<and> (\<forall>r \<in> set (rows df'). Missing \<notin> set r)"
proof -
  have ex: "list_ex isna r \<longleftrightarrow> Missing \<in> set r" for r :: "'a cell list"
    by (auto simp: list_ex_iff isna_iff)
  have "rows (dropna df) = filter (\<lambda>r. Missing \<notin> set r) (rows df)"
    by (simp add: dropna_def ex)
  then show ?thesis
    using assms by (simp add: handle_missing_data_def askstring_def emit_def)
qed

theorem drop_removes_rows_with_missing_witness:
  "\<exists>w'. handle_missing_data quiet_lib example_frame (user [Some ''drop'']) =
     Some (\<lparr>columns = [''name'', ''city'', ''age''],
            rows = [[Text ''ann'', Text ''oslo'', Num 31],
                    [Text ''dee'', Text ''rome'', Num 40]]\<rparr>, w')"
proof -
  have h: "answers (user [Some ''drop'']) = Some ''drop'' # []"
    by (simp add: user_def)
  from drop_removes_rows_with_missing [OF h, of quiet_lib example_frame]
  obtain df' w' where
    run: "handle_missing_data quiet_lib example_frame (user [Some ''drop'']) = Some (df', w')"
      and rs: "rows df' = filter (\<lambda>r. Missing \<notin> set r) (rows example_frame)"
    by blast
  from run have "columns df' = [''name'', ''city'', ''age'']"
    by (auto simp: handle_missing_data_def askstring_def user_def dropna_def example_frame_def)
  moreover from rs have "rows df' = [[Text ''ann'', Text ''oslo'', Num 31],
                                     [Text ''dee'', Text ''rome'', Num 40]]"
    by (simp add: example_frame_def)
  ultimately have "df' = \<lparr>columns = [''name'', ''city'', ''age''],
            rows = [[Text ''ann'', Text ''oslo'', Num 31],
                    [Text ''dee'', Text ''rome'', Num 40]]\<rparr>"
    by (cases df') simp
  with run show ?thesis by blast
qed

text \<open>
  C7, as the script has it. An answer other than \<open>drop\<close> and \<open>fill\<close> (a cancelled dialog
  included) leaves the frame as it is. The logger writes a warning for it, except for the
  answer \<open>cancel\<close>, which the script accepts with a line at level INFO and no warning.
\<close>

theorem other_answer_keeps_frame:
  assumes "answers w = a # rest" and "a \<noteq> Some ''drop''" and "a \<noteq> Some ''fill''"
  shows "handle_missing_data lib df w =
           Some (df, emit [if a = Some ''cancel''
                           then Log INFO ''Missing data handling canceled.''
                           else Log WARNING ''Invalid input for missing data handling.'']
                       (w\<lparr>answers := rest\<rparr>))"
  using assms by (simp add: handle_missing_data_def askstring_def)

theorem other_answer_keeps_frame_witness:
  "handle_missing_data quiet_lib example_frame (user [Some ''remove'']) =
     Some (example_frame,
           \<lparr>answers = [], disk = (),
            trace = [Log WARNING ''Invalid input for missing data handling.'']\<rparr>)"
proof -
  have h: "answers (user [Some ''remove'']) = Some ''remove'' # []"
    by (simp add: user_def)
  show ?thesis
    using other_answer_keeps_frame [OF h, of quiet_lib example_frame]
    by (simp add: emit_def user_def)
qed

text \<open>
  The claim as the specification states it fails at the answer \<open>cancel\<close>: the frame is kept,
  and the only event is a logger line at level INFO.
\<close>

theorem cancel_is_not_warned:
  "handle_missing_data quiet_lib example_frame (user [Some ''cancel'']) =
     Some (example_frame,
           \<lparr>answers = [], disk = (), trace = [Log INFO ''Missing data handling canceled.'']\<rparr>)"
  by (simp add: handle_missing_data_def askstring_def emit_def user_def)

section \<open>Filtering\<close>

lemma select_by_mask: "map fst (filter snd (zip xs (map h xs))) = filter h xs"
  by (induction xs) simp_all

lemma eq_scalar_getitem:
  "eq_scalar (getitem df c) v
     = map (\<lambda>r. Some (r ! label_pos c (columns df)) = map_option Text v) (rows df)"
proof -
  have "(case v of None \<Rightarrow> False | Some x \<Rightarrow> (case k of Text t \<Rightarrow> t = x | _ \<Rightarrow> False))
          \<longleftrightarrow> Some k = map_option Text v" for k :: "'a cell"
    by (cases v; cases k) auto
  then show ?thesis
    by (simp add: eq_scalar_def getitem_def)
qed

lemma filter_data_found:
  assumes "answers w = Some c # v # rest" and "c \<in> set (columns df)"
  shows "\<exists>w'. filter_data df w =
           Some (df\<lparr>rows := filter (\<lambda>r. Some (r ! label_pos c (columns df)) = map_option Text v)
                               (rows df)\<rparr>, w')
           \<and> answers w' = rest"
  using assms
  by (simp add: filter_data_def askstring_def getitem_mask_def eq_scalar_getitem
        select_by_mask emit_def Let_def)

lemma filter_data_not_found:
  assumes "answers w = a # rest" and "a \<notin> Some ` set (columns df)"
  shows "filter_data df w =
           Some (df, emit [MessageBox ERROR ''Error'' ''Column not found.''] (w\<lparr>answers := rest\<rparr>))"
  using assms by (cases a) (auto simp: filter_data_def askstring_def)

text \<open>
  C1. On a frame as the reader builds it, when the first answer is a label of the frame, the
  filter returns a frame with the same columns whose rows are exactly the rows whose cell
  under that label is a string equal to the second answer, as often and in the order they
  stood. A number or a missing cell never matches, and nothing matches a cancelled second
  dialog. When the first answer is not a label of the frame (or the dialog was cancelled),
  the filter shows the error box and returns the frame it was given.
\<close>

theorem filter_selects_equal_rows:
  assumes "wf_frame df"
  shows "(answers w = Some c # v # rest \<and> c \<in> set (columns df) \<longrightarrow>
            (\<exists>df' w'. filter_data df w = Some (df', w')
               \<and> answers w' = rest
               \<and> wf_frame df'
               \<and> columns df' = columns df
               \<and> rows df' = filter (\<lambda>r. Some (r ! label_pos c (columns df)) = map_option Text v)
                                    (rows df)))
       \<and> (answers w = a # rest \<and> a \<notin> Some ` set (columns df) \<longrightarrow>
            filter_data df w =
              Some (df, emit [MessageBox ERROR ''Error'' ''Column not found.'']
                          (w\<lparr>answers := rest\<rparr>)))"
proof (intro conjI impI)
  assume h: "answers w = Some c # v # rest \<and> c \<in> set (columns df)"
  let ?df' = "df\<lparr>rows := filter (\<lambda>r. Some (r ! label_pos c (columns df)) = map_option Text v)
                               (rows df)\<rparr>"
  from h obtain w' where "filter_data df w = Some (?df', w')" and "answers w' = rest"
    using filter_data_found [of w c v rest df] by blast
  moreover have "wf_frame ?df'"
    using assms by (simp add: wf_frame_def list_all_iff)
  ultimately show "\<exists>df' w'. filter_data df w = Some (df', w')
               \<and> answers w' = rest
               \<and> wf_frame df'
               \<and> columns df' = columns df
               \<and> rows df' = filter (\<lambda>r. Some (r ! label_pos c (columns df)) = map_option Text v)
                                    (rows df)"
    by simp
next
  assume "answers w = a # rest \<and> a \<notin> Some ` set (columns df)"
  then show "filter_data df w =
              Some (df, emit [MessageBox ERROR ''Error'' ''Column not found.'']
                          (w\<lparr>answers := rest\<rparr>))"
    using filter_data_not_found [of w a rest df] by blast
qed

lemma wf_example_frame: "wf_frame example_frame"
  by (simp add: wf_frame_def example_frame_def)

theorem filter_selects_equal_rows_witness:
  "wf_frame example_frame
   \<and> (\<exists>w'. filter_data example_frame (user [Some ''city'', Some ''oslo'']) =
          Some (\<lparr>columns = [''name'', ''city'', ''age''],
                 rows = [[Text ''ann'', Text ''oslo'', Num 31],
                         [Text ''cy'', Text ''oslo'', Missing]]\<rparr>, w'))
   \<and> filter_data example_frame (user [Some ''town'']) =
          Some (example_frame,
                \<lparr>answers = [], disk = (),
                 trace = [MessageBox ERROR ''Error'' ''Column not found.'']\<rparr>)"
proof -
  let ?w = "user [Some ''city'', Some ''oslo'']"
  have a: "answers ?w = Some ''city'' # Some ''oslo'' # []
             \<and> ''city'' \<in> set (columns example_frame)"
    by (simp add: user_def example_frame_def)
  have b: "answers (user [Some ''town'']) = Some ''town'' # []
             \<and> Some ''town'' \<notin> Some ` set (columns example_frame)"
    by (simp add: user_def example_frame_def)
  note inst = filter_selects_equal_rows [OF wf_example_frame]
  from inst [of ?w "''city''" "Some ''oslo''" "[]"] a
  obtain df' w' where run: "filter_data example_frame ?w = Some (df', w')"
    and cs: "columns df' = columns example_frame"
    and rs: "rows df' = filter (\<lambda>r. Some (r ! label_pos ''city'' (columns example_frame))
                                      = map_option Text (Some ''oslo'')) (rows example_frame)"
    by blast
  from cs rs have "df' = \<lparr>columns = [''name'', ''city'', ''age''],
                 rows = [[Text ''ann'', Text ''oslo'', Num 31],
                         [Text ''cy'', Text ''oslo'', Missing]]\<rparr>"
    by (cases df') (simp add: example_frame_def)
  with run have first: "\<exists>w'. filter_data example_frame ?w =
          Some (\<lparr>columns = [''name'', ''city'', ''age''],
                 rows = [[Text ''ann'', Text ''oslo'', Num 31],
                         [Text ''cy'', Text ''oslo'', Missing]]\<rparr>, w')"
    by blast
  from inst [of "user [Some ''town'']" _ _ "[]" "Some ''town''"] b
  have "filter_data example_frame (user [Some ''town'']) =
          Some (example_frame,
                emit [MessageBox ERROR ''Error'' ''Column not found.'']
                  ((user [Some ''town''])\<lparr>answers := []\<rparr>))"
    by blast
  then have second: "filter_data example_frame (user [Some ''town'']) =
          Some (example_frame,
                \<lparr>answers = [], disk = (),
                 trace = [MessageBox ERROR ''Error'' ''Column not found.'']\<rparr>)"
    by (simp add: emit_def user_def)
  from wf_example_frame first second show ?thesis by blast
qed

text \<open>
  C9. On a frame as the reader builds it, with a label of the frame as first answer, the
  rows of the filtered frame are a subsequence of the rows of the frame: rows are only
  left out, never moved, repeated or made up.
\<close>

theorem filter_rows_subseq:
  assumes "wf_frame df" and "answers w = Some c # v # rest" and "c \<in> set (columns df)"
  shows "\<exists>df' w'. filter_data df w = Some (df', w') \<and> subseq (rows df') (rows df)"
proof -
  from filter_data_found [OF assms(2,3)] obtain w' where
    "filter_data df w =
       Some (df\<lparr>rows := filter (\<lambda>r. Some (r ! label_pos c (columns df)) = map_option Text v)
                           (rows df)\<rparr>, w')"
    by blast
  then show ?thesis
    by (auto intro: subseq_filter_left)
qed

theorem filter_rows_subseq_witness:
  "\<exists>df' w'. filter_data example_frame (user [Some ''age'', Some ''31'']) = Some (df', w')
     \<and> subseq (rows df') (rows example_frame) \<and> rows df' = []"
proof -
  let ?w = "user [Some ''age'', Some ''31'']"
  have a: "answers ?w = Some ''age'' # Some ''31'' # []"
    by (simp add: user_def)
  have c: "''age'' \<in> set (columns example_frame)"
    by (simp add: example_frame_def)
  from filter_rows_subseq [OF wf_example_frame a c]
  obtain df' w' where run: "filter_data example_frame ?w = Some (df', w')"
    and sub: "subseq (rows df') (rows example_frame)"
    by blast
  from run have "rows df' = []"
    by (auto simp: filter_data_def askstring_def user_def example_frame_def getitem_def
          eq_scalar_def getitem_mask_def Let_def)
  with run sub show ?thesis by blast
qed

section \<open>The columns stay\<close>

text \<open>
  C4. Whatever the answers, the frame that the missing-data operation returns and the
  frame that the filter returns have the columns of the frame they were given. Both
  return as soon as two answers are there.
\<close>

theorem columns_unchanged:
  "(\<forall>df' w'. handle_missing_data lib df w = Some (df', w') \<longrightarrow> columns df' = columns df)
   \<and> (\<forall>df' w'. filter_data df w = Some (df', w') \<longrightarrow> columns df' = columns df)
   \<and> (2 \<le> length (answers w) \<longrightarrow>
        handle_missing_data lib df w \<noteq> None \<and> filter_data df w \<noteq> None)"
proof (intro conjI allI impI)
  fix df' w'
  assume "handle_missing_data lib df w = Some (df', w')"
  then show "columns df' = columns df"
    by (auto simp: handle_missing_data_def askstring_def dropna_def fillna_def fill_columns_def
          split: list.splits if_splits option.splits prod.splits)
next
  fix df' w'
  assume "filter_data df w = Some (df', w')"
  then show "columns df' = columns df"
    by (auto simp: filter_data_def askstring_def getitem_mask_def Let_def
          split: list.splits if_splits option.splits)
next
  assume "2 \<le> length (answers w)"
  then obtain a b rest where "answers w = a # b # rest"
    by (cases "answers w"; cases "tl (answers w)") auto
  then show "handle_missing_data lib df w \<noteq> None"
    by (auto simp: handle_missing_data_def askstring_def split: prod.splits option.splits)
next
  assume "2 \<le> length (answers w)"
  then obtain a b rest where "answers w = a # b # rest"
    by (cases "answers w"; cases "tl (answers w)") auto
  then show "filter_data df w \<noteq> None"
    by (auto simp: filter_data_def askstring_def Let_def split: option.splits)
qed

theorem columns_unchanged_witness:
  "(\<exists>df' w'. handle_missing_data quiet_lib example_frame (user [Some ''drop'', Some ''exit'']) = Some (df', w')
      \<and> columns df' = [''name'', ''city'', ''age''])
   \<and> (\<exists>df' w'. filter_data example_frame (user [Some ''city'', Some ''rome'']) = Some (df', w')
      \<and> columns df' = [''name'', ''city'', ''age''])"
proof -
  let ?w = "user [Some ''drop'', Some ''exit'']"
  let ?u = "user [Some ''city'', Some ''rome'']"
  have "2 \<le> length (answers ?w)"
    by (simp add: user_def)
  with columns_unchanged [where lib = quiet_lib and df = example_frame and w = ?w]
  obtain df' w' where run: "handle_missing_data quiet_lib example_frame ?w = Some (df', w')"
    by auto
  with columns_unchanged [where lib = quiet_lib and df = example_frame and w = ?w]
  have "columns df' = columns example_frame"
    by blast
  with run have first: "\<exists>df' w'. handle_missing_data quiet_lib example_frame ?w = Some (df', w')
      \<and> columns df' = [''name'', ''city'', ''age'']"
    by (auto simp: example_frame_def)
  have "2 \<le> length (answers ?u)"
    by (simp add: user_def)
  with columns_unchanged [where lib = quiet_lib and df = example_frame and w = ?u]
  obtain df'' w'' where run2: "filter_data example_frame ?u = Some (df'', w'')"
    by auto
  with columns_unchanged [where lib = quiet_lib and df = example_frame and w = ?u]
  have "columns df'' = columns example_frame"
    by blast
  with run2 have "\<exists>df' w'. filter_data example_frame ?u = Some (df', w')
      \<and> columns df' = [''name'', ''city'', ''age'']"
    by (auto simp: example_frame_def)
  with first show ?thesis by blast
qed

section \<open>The session\<close>

text \<open>One round of each loop, and what the procedures leave of the answers.\<close>

lemma main_loop_Nil: "answers w = [] \<Longrightarrow> main_loop lib df w = None"
  by (subst main_loop.simps) (simp add: askstring_def)

lemma main_loop_Cons:
  "answers w = a # rest \<Longrightarrow>
   main_loop lib df w =
     (if a = Some ''info'' then main_loop lib df (display_data_info lib df (w\<lparr>answers := rest\<rparr>))
      else if a = Some ''summary'' then main_loop lib df (describe_data lib df (w\<lparr>answers := rest\<rparr>))
      else if a = Some ''missing'' then
        (case handle_missing_data lib df (w\<lparr>answers := rest\<rparr>) of None \<Rightarrow> None
         | Some (df', w2) \<Rightarrow> main_loop lib df' w2)
      else if a = Some ''filter'' then
        (case filter_data df (w\<lparr>answers := rest\<rparr>) of None \<Rightarrow> None
         | Some (df', w2) \<Rightarrow> main_loop lib df' w2)
      else if a = Some ''save'' then
        (case save_csv lib df (w\<lparr>answers := rest\<rparr>) of None \<Rightarrow> None
         | Some w2 \<Rightarrow> main_loop lib df w2)
      else if a = Some ''plot'' then
        (case user_plot_selection lib df (w\<lparr>answers := rest\<rparr>) of None \<Rightarrow> None
         | Some w2 \<Rightarrow> main_loop lib df w2)
      else if a = Some ''exit'' then Some (df, w\<lparr>answers := rest\<rparr>)
      else main_loop lib df
             (emit [MessageBox WARNING ''Invalid input'' ''Please enter a valid action.'']
                (w\<lparr>answers := rest\<rparr>)))"
  by (subst main_loop.simps) (simp add: askstring_def)

lemma handle_missing_data_suffix:
  "handle_missing_data lib df w = Some (df', w') \<Longrightarrow> suffix (answers w') (answers w)"
  by (auto simp: handle_missing_data_def askstring_def emit_def suffix_Cons
        split: list.splits if_splits prod.splits option.splits)

lemma filter_data_suffix:
  "filter_data df w = Some (df', w') \<Longrightarrow> suffix (answers w') (answers w)"
  by (auto simp: filter_data_def askstring_def emit_def Let_def suffix_Cons
        split: list.splits if_splits option.splits)

lemma save_csv_suffix:
  "save_csv lib df w = Some w' \<Longrightarrow> suffix (answers w') (answers w)"
  by (auto simp: save_csv_def askfilename_def askstring_def emit_def suffix_Cons
        split: list.splits if_splits option.splits prod.splits)

lemma answers_after_display:
  "answers (emit es w) = answers w"
  "answers (display_data_info lib df w) = answers w"
  "answers (describe_data lib df w) = answers w"
  "answers (plot_simple lib df w) = answers w"
  "answers (plot_pairplot lib df w) = answers w"
  "answers (plot_histogram lib df w) = answers w"
  "answers (plot_heatmap lib df w) = answers w"
  by (simp_all add: emit_def display_data_info_def describe_data_def plot_simple_def
        plot_pairplot_def plot_histogram_def plot_heatmap_def split: option.splits)

lemma user_plot_selection_Cons:
  "answers w = a # rest \<Longrightarrow>
   user_plot_selection lib df w =
     (if a = Some ''simple''
        then user_plot_selection lib df (plot_simple lib df (w\<lparr>answers := rest\<rparr>))
      else if a = Some ''pairplot''
        then user_plot_selection lib df (plot_pairplot lib df (w\<lparr>answers := rest\<rparr>))
      else if a = Some ''histogram''
        then user_plot_selection lib df (plot_histogram lib df (w\<lparr>answers := rest\<rparr>))
      else if a = Some ''heatmap''
        then user_plot_selection lib df (plot_heatmap lib df (w\<lparr>answers := rest\<rparr>))
      else if a = Some ''exit'' then Some (w\<lparr>answers := rest\<rparr>)
      else user_plot_selection lib df
             (emit [MessageBox WARNING ''Invalid input'' ''Please enter a valid plot type.'']
                (w\<lparr>answers := rest\<rparr>)))"
  by (subst user_plot_selection.simps) (simp add: askstring_def)

lemma user_plot_selection_suffix:
  "user_plot_selection lib df w = Some w' \<Longrightarrow> suffix (answers w') (answers w)"
proof (induction "length (answers w)" arbitrary: w rule: less_induct)
  case less
  show ?case
  proof (cases "answers w")
    case Nil
    with less.prems show ?thesis
      by (subst (asm) user_plot_selection.simps) (simp add: askstring_def)
  next
    case (Cons a rest)
    let ?w1 = "w\<lparr>answers := rest\<rparr>"
    have IH: "user_plot_selection lib df u = Some w' \<Longrightarrow> answers u = rest
                \<Longrightarrow> suffix (answers w') (answers w)" for u
      using less.hyps [of u] Cons by (simp add: suffix_ConsI)
    note run = less.prems [unfolded user_plot_selection_Cons [OF Cons]]
    show ?thesis
    proof (cases "a = Some ''exit''")
      case True
      with run Cons show ?thesis
        by (auto simp: suffix_ConsI)
    next
      case False
      with run obtain u where "user_plot_selection lib df u = Some w'" and "answers u = rest"
        by (auto simp: answers_after_display split: if_splits)
      then show ?thesis
        by (rule IH)
    qed
  qed
qed

lemma main_loop_ends_with_exit:
  "main_loop lib df w = Some (df', w') \<Longrightarrow> suffix (Some ''exit'' # answers w') (answers w)"
proof (induction "length (answers w)" arbitrary: df w rule: less_induct)
  case less
  show ?case
  proof (cases "answers w")
    case Nil
    with less.prems show ?thesis
      by (simp add: main_loop_Nil)
  next
    case (Cons a rest)
    let ?w1 = "w\<lparr>answers := rest\<rparr>"
    have IH: "main_loop lib d u = Some (df', w') \<Longrightarrow> suffix (answers u) rest
                \<Longrightarrow> suffix (Some ''exit'' # answers w') (answers w)" for d u
    proof -
      assume run: "main_loop lib d u = Some (df', w')" and suf: "suffix (answers u) rest"
      from suf have "length (answers u) \<le> length rest"
        by (rule suffix_length_le)
      with Cons have "length (answers u) < length (answers w)"
        by simp
      from less.hyps [OF this run] have "suffix (Some ''exit'' # answers w') (answers u)" .
      then have "suffix (Some ''exit'' # answers w') rest"
        using suf by (rule suffix_order.trans)
      with Cons show ?thesis
        by (simp add: suffix_ConsI)
    qed
    note run = less.prems [unfolded main_loop_Cons [OF Cons]]
    consider (info) "a = Some ''info''" | (summary) "a = Some ''summary''"
      | (missing) "a = Some ''missing''" | (filter) "a = Some ''filter''"
      | (save) "a = Some ''save''" | (plot) "a = Some ''plot''"
      | (exit) "a = Some ''exit''"
      | (other) "a \<notin> Some ` {''info'', ''summary'', ''missing'', ''filter'', ''save'', ''plot'', ''exit''}"
      by auto
    then show ?thesis
    proof cases
      case info
      with run have "main_loop lib df (display_data_info lib df ?w1) = Some (df', w')"
        by simp
      then show ?thesis
        by (rule IH) (simp add: answers_after_display)
    next
      case summary
      with run have "main_loop lib df (describe_data lib df ?w1) = Some (df', w')"
        by simp
      then show ?thesis
        by (rule IH) (simp add: answers_after_display)
    next
      case missing
      with run obtain df2 w2 where
        sub: "handle_missing_data lib df ?w1 = Some (df2, w2)" and
        go: "main_loop lib df2 w2 = Some (df', w')"
        by (auto split: option.splits)
      from go show ?thesis
        by (rule IH) (use handle_missing_data_suffix [OF sub] in simp)
    next
      case filter
      with run obtain df2 w2 where
        sub: "filter_data df ?w1 = Some (df2, w2)" and
        go: "main_loop lib df2 w2 = Some (df', w')"
        by (auto split: option.splits)
      from go show ?thesis
        by (rule IH) (use filter_data_suffix [OF sub] in simp)
    next
      case save
      with run obtain w2 where
        sub: "save_csv lib df ?w1 = Some w2" and
        go: "main_loop lib df w2 = Some (df', w')"
        by (auto split: option.splits)
      from go show ?thesis
        by (rule IH) (use save_csv_suffix [OF sub] in simp)
    next
      case plot
      with run obtain w2 where
        sub: "user_plot_selection lib df ?w1 = Some w2" and
        go: "main_loop lib df w2 = Some (df', w')"
        by (auto split: option.splits)
      from go show ?thesis
        by (rule IH) (use user_plot_selection_suffix [OF sub] in simp)
    next
      case exit
      with run Cons show ?thesis
        by auto
    next
      case other
      with run have "main_loop lib df
             (emit [MessageBox WARNING ''Invalid input'' ''Please enter a valid action.''] ?w1)
               = Some (df', w')"
        by auto
      then show ?thesis
        by (rule IH) (simp add: answers_after_display)
    qed
  qed
qed

text \<open>
  C6. At the action prompt, an answer that is none of info, summary, missing, filter, save,
  plot and exit only shows the warning box: the loop goes on with the same frame and the
  same disk, as if it had just been entered, on the answers that follow. At the plot
  prompt the same holds for an answer that is none of simple, pairplot, histogram, heatmap
  and exit.
\<close>

theorem unrecognized_answer_reprompts:
  "(a \<notin> Some ` {''info'', ''summary'', ''missing'', ''filter'', ''save'', ''plot'', ''exit''} \<longrightarrow>
      main_loop lib df (w\<lparr>answers := a # rest\<rparr>) =
        main_loop lib df
          (emit [MessageBox WARNING ''Invalid input'' ''Please enter a valid action.'']
             (w\<lparr>answers := rest\<rparr>)))
   \<and> (a \<notin> Some ` {''simple'', ''pairplot'', ''histogram'', ''heatmap'', ''exit''} \<longrightarrow>
      user_plot_selection lib df (w\<lparr>answers := a # rest\<rparr>) =
        user_plot_selection lib df
          (emit [MessageBox WARNING ''Invalid input'' ''Please enter a valid plot type.'']
             (w\<lparr>answers := rest\<rparr>)))"
proof (intro conjI impI)
  assume "a \<notin> Some ` {''info'', ''summary'', ''missing'', ''filter'', ''save'', ''plot'', ''exit''}"
  then show "main_loop lib df (w\<lparr>answers := a # rest\<rparr>) =
        main_loop lib df
          (emit [MessageBox WARNING ''Invalid input'' ''Please enter a valid action.'']
             (w\<lparr>answers := rest\<rparr>))"
    by (subst main_loop.simps) (auto simp: askstring_def)
next
  assume "a \<notin> Some ` {''simple'', ''pairplot'', ''histogram'', ''heatmap'', ''exit''}"
  then show "user_plot_selection lib df (w\<lparr>answers := a # rest\<rparr>) =
        user_plot_selection lib df
          (emit [MessageBox WARNING ''Invalid input'' ''Please enter a valid plot type.'']
             (w\<lparr>answers := rest\<rparr>))"
    by (subst user_plot_selection.simps) (auto simp: askstring_def)
qed

theorem unrecognized_answer_reprompts_witness:
  "main_loop quiet_lib example_frame (user [Some ''help'', Some ''exit'']) =
     Some (example_frame,
           \<lparr>answers = [], disk = (),
            trace = [MessageBox WARNING ''Invalid input'' ''Please enter a valid action.'']\<rparr>)
   \<and> user_plot_selection quiet_lib example_frame (user [Some ''pie'', Some ''exit'']) =
     Some \<lparr>answers = [], disk = (),
           trace = [MessageBox WARNING ''Invalid input'' ''Please enter a valid plot type.'']\<rparr>"
proof -
  note inst = unrecognized_answer_reprompts
    [where lib = quiet_lib and df = example_frame and w = "user []" and rest = "[Some ''exit'']"]
  have "main_loop quiet_lib example_frame ((user [])\<lparr>answers := Some ''help'' # [Some ''exit'']\<rparr>) =
        main_loop quiet_lib example_frame
          (emit [MessageBox WARNING ''Invalid input'' ''Please enter a valid action.'']
             ((user [])\<lparr>answers := [Some ''exit'']\<rparr>))"
    using inst [where a = "Some ''help''"] by simp
  then have first: "main_loop quiet_lib example_frame (user [Some ''help'', Some ''exit'']) =
     Some (example_frame,
           \<lparr>answers = [], disk = (),
            trace = [MessageBox WARNING ''Invalid input'' ''Please enter a valid action.'']\<rparr>)"
    by (simp add: user_def emit_def main_loop_Cons)
  have "user_plot_selection quiet_lib example_frame
          ((user [])\<lparr>answers := Some ''pie'' # [Some ''exit'']\<rparr>) =
        user_plot_selection quiet_lib example_frame
          (emit [MessageBox WARNING ''Invalid input'' ''Please enter a valid plot type.'']
             ((user [])\<lparr>answers := [Some ''exit'']\<rparr>))"
    using inst [where a = "Some ''pie''"] by simp
  then have "user_plot_selection quiet_lib example_frame (user [Some ''pie'', Some ''exit'']) =
     Some \<lparr>answers = [], disk = (),
           trace = [MessageBox WARNING ''Invalid input'' ''Please enter a valid plot type.'']\<rparr>"
    by (simp add: user_def emit_def user_plot_selection_Cons)
  with first show ?thesis by blast
qed

text \<open>
  C10. A cancelled action dialog is handled like an unknown action: the warning box, the
  same frame and disk, and the loop goes on with the answers that follow. The answer
  \<open>exit\<close> returns from the loop with the frame as it is, and whenever the loop returns, the
  last answer it took was \<open>exit\<close>.
\<close>

theorem cancelled_action_reprompts:
  "main_loop lib df (w\<lparr>answers := None # rest\<rparr>) =
     main_loop lib df
       (emit [MessageBox WARNING ''Invalid input'' ''Please enter a valid action.'']
          (w\<lparr>answers := rest\<rparr>))
   \<and> main_loop lib df (w\<lparr>answers := Some ''exit'' # rest\<rparr>) = Some (df, w\<lparr>answers := rest\<rparr>)
   \<and> (\<forall>df' w'. main_loop lib df w = Some (df', w') \<longrightarrow>
         (\<exists>before. answers w = before @ Some ''exit'' # answers w'))"
proof (intro conjI allI impI)
  show "main_loop lib df (w\<lparr>answers := None # rest\<rparr>) =
     main_loop lib df
       (emit [MessageBox WARNING ''Invalid input'' ''Please enter a valid action.'']
          (w\<lparr>answers := rest\<rparr>))"
    by (subst main_loop_Cons [where a = None and rest = rest]) simp_all
next
  show "main_loop lib df (w\<lparr>answers := Some ''exit'' # rest\<rparr>) = Some (df, w\<lparr>answers := rest\<rparr>)"
    by (subst main_loop_Cons [where a = "Some ''exit''" and rest = rest]) simp_all
next
  fix df' w'
  assume "main_loop lib df w = Some (df', w')"
  then have "suffix (Some ''exit'' # answers w') (answers w)"
    by (rule main_loop_ends_with_exit)
  then show "\<exists>before. answers w = before @ Some ''exit'' # answers w'"
    by (simp add: suffix_def)
qed

theorem cancelled_action_reprompts_witness:
  "main_loop quiet_lib example_frame (user [None, Some ''exit'', Some ''info'']) =
     Some (example_frame,
           \<lparr>answers = [Some ''info''], disk = (),
            trace = [MessageBox WARNING ''Invalid input'' ''Please enter a valid action.'']\<rparr>)
   \<and> (\<exists>before. [None, Some ''exit'', Some ''info''] = before @ [Some ''exit'', Some ''info''])"
proof -
  let ?w = "user [None, Some ''exit'', Some ''info'']"
  note inst = cancelled_action_reprompts [where lib = quiet_lib and df = example_frame]
  have "main_loop quiet_lib example_frame ((user [])\<lparr>answers := None # [Some ''exit'', Some ''info'']\<rparr>) =
     main_loop quiet_lib example_frame
       (emit [MessageBox WARNING ''Invalid input'' ''Please enter a valid action.'']
          ((user [])\<lparr>answers := [Some ''exit'', Some ''info'']\<rparr>))"
    using inst [where w = "user []" and rest = "[Some ''exit'', Some ''info'']"] by blast
  then have run: "main_loop quiet_lib example_frame ?w =
     Some (example_frame,
           \<lparr>answers = [Some ''info''], disk = (),
            trace = [MessageBox WARNING ''Invalid input'' ''Please enter a valid action.'']\<rparr>)"
    by (simp add: user_def emit_def main_loop_Cons)
  with inst [where w = ?w]
  have "\<exists>before. answers ?w = before @ Some ''exit'' #
          answers \<lparr>answers = [Some ''info''], disk = (),
            trace = [MessageBox WARNING ''Invalid input'' ''Please enter a valid action.'' :: int event]\<rparr>"
    by blast
  then have "\<exists>before. [None, Some ''exit'', Some ''info''] = before @ [Some ''exit'', Some ''info'']"
    by (simp add: user_def)
  with run show ?thesis by blast
qed

text \<open>
  C8. When the file dialog is cancelled or returns the empty string, and when reading the
  chosen path raises, \<open>main\<close> returns with no frame, having taken only the answer of the
  file dialog: no action is asked for, the disk is as it was, and the events end with the
  line "Application ended.".
\<close>

theorem no_file_no_session:
  "(a = None \<or> a = Some [] \<longrightarrow>
      main lib (w\<lparr>answers := a # rest\<rparr>) =
        Some (None,
              emit [Log INFO ''Application started.'', Log INFO ''No file selected.'',
                    Log INFO ''Application ended.''] (w\<lparr>answers := rest\<rparr>)))
   \<and> (p \<noteq> [] \<and> read_csv lib (disk w) p = Inl e \<longrightarrow>
      main lib (w\<lparr>answers := Some p # rest\<rparr>) =
        Some (None,
              emit [Log INFO ''Application started.'', Log INFO (''File selected: '' @ p),
                    Log ERROR (''Error loading file: '' @ e),
                    MessageBox ERROR ''Error'' (''Could not load file: '' @ e),
                    Log INFO ''Application ended.''] (w\<lparr>answers := rest\<rparr>)))"
  by (auto simp: main_def load_csv_def askfilename_def askstring_def emit_def)

theorem no_file_no_session_witness:
  "main quiet_lib (user [None, Some ''info'']) =
     Some (None,
           \<lparr>answers = [Some ''info''], disk = (),
            trace = [Log INFO ''Application started.'', Log INFO ''No file selected.'',
                     Log INFO ''Application ended.'']\<rparr>)
   \<and> main quiet_lib (user [Some ''data.csv'', Some ''info'']) =
     Some (None,
           \<lparr>answers = [Some ''info''], disk = (),
            trace = [Log INFO ''Application started.'', Log INFO ''File selected: data.csv'',
                     Log ERROR ''Error loading file: No such file or directory'',
                     MessageBox ERROR ''Error'' ''Could not load file: No such file or directory'',
                     Log INFO ''Application ended.'']\<rparr>)"
proof -
  note inst = no_file_no_session [where lib = quiet_lib and w = "user []" and rest = "[Some ''info'']"]
  have a: "main quiet_lib ((user [])\<lparr>answers := None # [Some ''info'']\<rparr>) =
        Some (None,
              emit [Log INFO ''Application started.'', Log INFO ''No file selected.'',
                    Log INFO ''Application ended.''] ((user [])\<lparr>answers := [Some ''info'']\<rparr>))"
    using inst [where a = None] by blast
  have "''data.csv'' \<noteq> [] \<and>
          read_csv quiet_lib (disk (user [])) ''data.csv'' = Inl ''No such file or directory''"
    by (simp add: quiet_lib_def)
  then have b: "main quiet_lib ((user [])\<lparr>answers := Some ''data.csv'' # [Some ''info'']\<rparr>) =
        Some (None,
              emit [Log INFO ''Application started.'', Log INFO (''File selected: '' @ ''data.csv''),
                    Log ERROR (''Error loading file: '' @ ''No such file or directory''),
                    MessageBox ERROR ''Error'' (''Could not load file: '' @ ''No such file or directory''),
                    Log INFO ''Application ended.''] ((user [])\<lparr>answers := [Some ''info'']\<rparr>))"
    using inst [where p = "''data.csv''" and e = "''No such file or directory''"] by blast
  from a b show ?thesis
    by (simp add: user_def emit_def)
qed

section \<open>Saving and loading\<close>

text \<open>
  \<open>save_csv\<close> and \<open>load_csv\<close> call \<open>df.to_csv(path, index=False)\<close> and \<open>pd.read_csv(path)\<close>
  with the defaults of pandas. A file is its text. The writer is the writer of Python's csv
  module as pandas sets it up: fields parted by commas, lines ended by a line feed, quotes
  only where needed, a quote inside quotes doubled. The reader is the tokenizer of pandas
  with its defaults, then the header, the missing values and the types of the columns.
\<close>

definition LF :: char where "LF = CHR 0x0A"
definition CR :: char where "CR = CHR 0x0D"

subsection \<open>The writer\<close>

text \<open>
  A field is put in quotes when it holds a comma, a quote or a line feed. Whether a carriage
  return calls for quotes depends on the Python that runs the script (\<open>qcr\<close>). A line
  of one empty field is written as two quotes.
\<close>

definition special :: "bool \<Rightarrow> char \<Rightarrow> bool" where
  "special qcr c \<longleftrightarrow> c = CHR '','' \<or> c = CHR 0x22 \<or> c = LF \<or> (qcr \<and> c = CR)"

definition write_field :: "bool \<Rightarrow> string \<Rightarrow> string" where
  "write_field qcr s =
     (if list_ex (special qcr) s
      then CHR 0x22 # concat (map (\<lambda>c. if c = CHR 0x22 then [c, c] else [c]) s) @ [CHR 0x22]
      else s)"

fun join_fields :: "string list \<Rightarrow> string" where
  "join_fields [] = []"
| "join_fields [f] = f"
| "join_fields (f # g # fs) = f @ CHR '','' # join_fields (g # fs)"

definition write_row :: "bool \<Rightarrow> string list \<Rightarrow> string" where
  "write_row qcr fs =
     (if fs = [[]] then [CHR 0x22, CHR 0x22] else join_fields (map (write_field qcr) fs)) @ [LF]"

subsection \<open>The tokenizer\<close>

text \<open>
  The states are those of the tokenizer of pandas that the defaults can reach. A
  configuration is the state, the field so far (last character first), the fields of the
  line so far (last first), and the lines so far (last first). An empty line and a line of
  blanks are skipped; a line feed, a carriage return, or the two in a row end a line outside
  quotes; blanks at the start of a line are kept once the line turns out not to be blank.
\<close>

datatype state =
    START_RECORD | START_FIELD | IN_FIELD | IN_QUOTED_FIELD | QUOTE_IN_QUOTED_FIELD
  | EAT_CRNL | EAT_CRNL_NOP | WHITESPACE_LINE

type_synonym config = "state \<times> string \<times> string list \<times> string list list"

definition push :: "char \<Rightarrow> state \<Rightarrow> config \<Rightarrow> config" where
  "push c st' cfg = (case cfg of (st, f, r, ls) \<Rightarrow> (st', c # f, r, ls))"

definition end_field :: "state \<Rightarrow> config \<Rightarrow> config" where
  "end_field st' cfg = (case cfg of (st, f, r, ls) \<Rightarrow> (st', [], rev f # r, ls))"

definition end_line :: "state \<Rightarrow> config \<Rightarrow> config" where
  "end_line st' cfg = (case cfg of (st, f, r, ls) \<Rightarrow> (st', [], [], rev r # ls))"

definition goto :: "state \<Rightarrow> config \<Rightarrow> config" where
  "goto st' cfg = (case cfg of (st, f, r, ls) \<Rightarrow> (st', f, r, ls))"

definition is_blank :: "char \<Rightarrow> bool" where
  "is_blank c \<longleftrightarrow> c = CHR '' '' \<or> c = CHR 0x09"

definition start_field :: "config \<Rightarrow> char \<Rightarrow> config" where
  "start_field cfg c =
     (if c = LF then end_line START_RECORD (end_field START_FIELD cfg)
      else if c = CR then end_field EAT_CRNL cfg
      else if c = CHR 0x22 then goto IN_QUOTED_FIELD cfg
      else if c = CHR '','' then end_field START_FIELD cfg
      else push c IN_FIELD cfg)"

definition in_field :: "config \<Rightarrow> char \<Rightarrow> config" where
  "in_field cfg c =
     (if c = LF then end_line START_RECORD (end_field START_FIELD cfg)
      else if c = CR then end_field EAT_CRNL cfg
      else if c = CHR '','' then end_field START_FIELD cfg
      else push c IN_FIELD cfg)"

definition start_record :: "config \<Rightarrow> char \<Rightarrow> config" where
  "start_record cfg c =
     (if c = LF then goto START_RECORD cfg
      else if c = CR then goto EAT_CRNL_NOP cfg
      else if is_blank c then push c WHITESPACE_LINE cfg
      else start_field cfg c)"

definition step :: "config \<Rightarrow> char \<Rightarrow> config" where
  "step cfg c =
     (case cfg of (st, f, r, ls) \<Rightarrow>
        (case st of
           START_RECORD \<Rightarrow> start_record cfg c
         | START_FIELD \<Rightarrow> start_field cfg c
         | IN_FIELD \<Rightarrow> in_field cfg c
         | IN_QUOTED_FIELD \<Rightarrow>
             if c = CHR 0x22 then goto QUOTE_IN_QUOTED_FIELD cfg else push c IN_QUOTED_FIELD cfg
         | QUOTE_IN_QUOTED_FIELD \<Rightarrow>
             if c = CHR 0x22 then push c IN_QUOTED_FIELD cfg else in_field cfg c
         | EAT_CRNL \<Rightarrow>
             if c = LF then end_line START_RECORD cfg
             else if c = CHR '','' then end_field START_FIELD (end_line START_FIELD cfg)
             else start_record (end_line START_RECORD cfg) c
         | EAT_CRNL_NOP \<Rightarrow>
             if c = LF \<or> c = CHR '','' then goto START_RECORD cfg
             else start_record (goto START_RECORD cfg) c
         | WHITESPACE_LINE \<Rightarrow>
             if c = LF then (START_RECORD, [], r, ls)
             else if c = CR then (EAT_CRNL_NOP, [], r, ls)
             else if is_blank c then push c WHITESPACE_LINE cfg
             else in_field cfg c))"

text \<open>At the end of the text: the open field and line are closed, inside quotes it is an error.\<close>

definition finish :: "config \<Rightarrow> string + string list list" where
  "finish cfg =
     (case cfg of (st, f, r, ls) \<Rightarrow>
        (case st of
           START_RECORD \<Rightarrow> Inr (rev ls)
         | WHITESPACE_LINE \<Rightarrow> Inr (rev ls)
         | EAT_CRNL_NOP \<Rightarrow> Inr (rev ls)
         | IN_QUOTED_FIELD \<Rightarrow> Inl ''Error tokenizing data. C error: EOF inside string''
         | EAT_CRNL \<Rightarrow> Inr (rev (rev r # ls))
         | _ \<Rightarrow> Inr (rev (rev (rev f # r) # ls))))"

definition tokenize :: "string \<Rightarrow> string + string list list" where
  "tokenize text = finish (foldl step (START_RECORD, [], [], []) text)"


subsection \<open>The tokenizer reads what the writer wrote\<close>

text \<open>
  A field is safe when the writer quotes a carriage return or the field has none. A line is
  a lonely blank when it is one field, not empty, of blanks only: written without quotes,
  the tokenizer skips it.
\<close>

definition safe :: "bool \<Rightarrow> string \<Rightarrow> bool" where
  "safe qcr s \<longleftrightarrow> qcr \<or> CR \<notin> set s"

definition lonely_blank :: "string list \<Rightarrow> bool" where
  "lonely_blank fs = (case fs of [s] \<Rightarrow> s \<noteq> [] \<and> list_all is_blank s | _ \<Rightarrow> False)"

lemma chars_distinct [simp]:
  "LF \<noteq> CR" "CR \<noteq> LF" "LF \<noteq> CHR '',''" "CR \<noteq> CHR '',''" "LF \<noteq> CHR 0x22" "CR \<noteq> CHR 0x22"
  "CHR '','' \<noteq> LF" "CHR '','' \<noteq> CR" "CHR 0x22 \<noteq> LF" "CHR 0x22 \<noteq> CR"
  "\<not> is_blank LF" "\<not> is_blank CR" "\<not> is_blank (CHR '','')" "\<not> is_blank (CHR 0x22)"
  by (simp_all add: LF_def CR_def is_blank_def)

lemma step_simps:
  "step (START_RECORD, f, r, ls) c = start_record (START_RECORD, f, r, ls) c"
  "step (START_FIELD, f, r, ls) c = start_field (START_FIELD, f, r, ls) c"
  "step (IN_FIELD, f, r, ls) c = in_field (IN_FIELD, f, r, ls) c"
  "step (IN_QUOTED_FIELD, f, r, ls) c =
     (if c = CHR 0x22 then (QUOTE_IN_QUOTED_FIELD, f, r, ls) else (IN_QUOTED_FIELD, c # f, r, ls))"
  "step (QUOTE_IN_QUOTED_FIELD, f, r, ls) c =
     (if c = CHR 0x22 then (IN_QUOTED_FIELD, c # f, r, ls)
      else in_field (QUOTE_IN_QUOTED_FIELD, f, r, ls) c)"
  "step (WHITESPACE_LINE, f, r, ls) c =
     (if c = LF then (START_RECORD, [], r, ls)
      else if c = CR then (EAT_CRNL_NOP, [], r, ls)
      else if is_blank c then (WHITESPACE_LINE, c # f, r, ls)
      else in_field (WHITESPACE_LINE, f, r, ls) c)"
  by (simp_all add: step_def goto_def push_def)

lemma in_field_simps:
  "in_field (st, f, r, ls) LF = (START_RECORD, [], [], rev (rev f # r) # ls)"
  "in_field (st, f, r, ls) (CHR '','') = (START_FIELD, [], rev f # r, ls)"
  "c \<noteq> LF \<Longrightarrow> c \<noteq> CR \<Longrightarrow> c \<noteq> CHR '','' \<Longrightarrow> in_field (st, f, r, ls) c = (IN_FIELD, c # f, r, ls)"
  by (simp_all add: in_field_def end_line_def end_field_def push_def)

lemma start_field_simps:
  "start_field (st, f, r, ls) LF = (START_RECORD, [], [], rev (rev f # r) # ls)"
  "start_field (st, f, r, ls) (CHR '','') = (START_FIELD, [], rev f # r, ls)"
  "start_field (st, f, r, ls) (CHR 0x22) = (IN_QUOTED_FIELD, f, r, ls)"
  "c \<noteq> LF \<Longrightarrow> c \<noteq> CR \<Longrightarrow> c \<noteq> CHR '','' \<Longrightarrow> c \<noteq> CHR 0x22 \<Longrightarrow>
     start_field (st, f, r, ls) c = (IN_FIELD, c # f, r, ls)"
  by (simp_all add: start_field_def end_line_def end_field_def push_def goto_def)

lemma start_record_simps:
  "c \<noteq> LF \<Longrightarrow> c \<noteq> CR \<Longrightarrow> \<not> is_blank c \<Longrightarrow>
     start_record (st, f, r, ls) c = start_field (st, f, r, ls) c"
  "c \<noteq> LF \<Longrightarrow> c \<noteq> CR \<Longrightarrow> is_blank c \<Longrightarrow>
     start_record (st, f, r, ls) c = (WHITESPACE_LINE, c # f, r, ls)"
  by (simp_all add: start_record_def push_def)

text \<open>The characters of a field that is written without quotes.\<close>

definition bare :: "string \<Rightarrow> bool" where
  "bare s \<longleftrightarrow> (\<forall>c \<in> set s. c \<noteq> LF \<and> c \<noteq> CR \<and> c \<noteq> CHR '','' \<and> c \<noteq> CHR 0x22)"

lemma bare_Cons: "bare (c # s) \<longleftrightarrow> c \<noteq> LF \<and> c \<noteq> CR \<and> c \<noteq> CHR '','' \<and> c \<noteq> CHR 0x22 \<and> bare s"
  by (auto simp: bare_def)

lemma bare_Nil: "bare []"
  by (simp add: bare_def)

lemma unquoted_bare:
  "safe qcr s \<Longrightarrow> \<not> list_ex (special qcr) s \<Longrightarrow> bare s"
  by (auto simp: safe_def list_ex_iff special_def bare_def)

lemma run_in_field:
  "bare s \<Longrightarrow> foldl step (IN_FIELD, f, r, ls) s = (IN_FIELD, rev s @ f, r, ls)"
  by (induction s arbitrary: f) (simp_all add: bare_Cons step_simps in_field_simps)

lemma run_whitespace_line:
  "bare s \<Longrightarrow>
   foldl step (WHITESPACE_LINE, f, r, ls) s
     = (if list_all is_blank s then WHITESPACE_LINE else IN_FIELD, rev s @ f, r, ls)"
proof (induction s arbitrary: f)
  case Nil
  show ?case by simp
next
  case (Cons c s)
  then have c: "c \<noteq> LF" "c \<noteq> CR" "c \<noteq> CHR '',''" and s: "bare s"
    by (simp_all add: bare_Cons)
  show ?case
  proof (cases "is_blank c")
    case True
    with c Cons.IH [OF s] show ?thesis
      by (simp add: step_simps)
  next
    case False
    with c s show ?thesis
      by (simp add: step_simps in_field_simps run_in_field)
  qed
qed

definition escape :: "string \<Rightarrow> string" where
  "escape s = concat (map (\<lambda>c. if c = CHR 0x22 then [c, c] else [c]) s)"

lemma run_in_quoted:
  "foldl step (IN_QUOTED_FIELD, f, r, ls) (escape s) = (IN_QUOTED_FIELD, rev s @ f, r, ls)"
  by (induction s arbitrary: f) (simp_all add: escape_def step_simps)

text \<open>Where the tokenizer stands after a field, before the comma or the end of the line.\<close>

definition after_field :: "config \<Rightarrow> string \<Rightarrow> string list \<Rightarrow> string list list \<Rightarrow> bool" where
  "after_field cfg s r ls \<longleftrightarrow>
     cfg = (QUOTE_IN_QUOTED_FIELD, rev s, r, ls)
     \<or> s = [] \<and> cfg = (START_FIELD, [], r, ls)
     \<or> s \<noteq> [] \<and> cfg = (IN_FIELD, rev s, r, ls)"

lemma after_field_comma:
  "after_field cfg s r ls \<Longrightarrow> step cfg (CHR '','') = (START_FIELD, [], s # r, ls)"
  by (auto simp: after_field_def step_simps in_field_simps start_field_simps)

lemma after_field_newline:
  "after_field cfg s r ls \<Longrightarrow> step cfg LF = (START_RECORD, [], [], rev (s # r) # ls)"
  by (auto simp: after_field_def step_simps in_field_simps start_field_simps)

lemma write_field_quoted:
  "list_ex (special qcr) s \<Longrightarrow> write_field qcr s = CHR 0x22 # escape s @ [CHR 0x22]"
  by (simp add: write_field_def escape_def)

lemma run_field:
  assumes "safe qcr s"
  shows "after_field (foldl step (START_FIELD, [], r, ls) (write_field qcr s)) s r ls"
proof (cases "list_ex (special qcr) s")
  case True
  then show ?thesis
    by (simp add: write_field_quoted step_simps start_field_simps run_in_quoted after_field_def)
next
  case False
  with assms have b: "bare s" by (rule unquoted_bare)
  from False have w: "write_field qcr s = s" by (simp add: write_field_def)
  show ?thesis
  proof (cases s)
    case Nil
    with w show ?thesis by (simp add: after_field_def)
  next
    case (Cons c cs)
    with b w show ?thesis
      by (simp add: bare_Cons step_simps start_field_simps run_in_field after_field_def)
  qed
qed

text \<open>The same for the first field of a line.\<close>

definition after_first :: "config \<Rightarrow> string \<Rightarrow> string list list \<Rightarrow> bool" where
  "after_first cfg s ls \<longleftrightarrow>
     cfg = (QUOTE_IN_QUOTED_FIELD, rev s, [], ls)
     \<or> s = [] \<and> cfg = (START_RECORD, [], [], ls)
     \<or> s \<noteq> [] \<and> \<not> list_all is_blank s \<and> cfg = (IN_FIELD, rev s, [], ls)
     \<or> s \<noteq> [] \<and> list_all is_blank s \<and> cfg = (WHITESPACE_LINE, rev s, [], ls)"

lemma after_first_comma:
  "after_first cfg s ls \<Longrightarrow> step cfg (CHR '','') = (START_FIELD, [], [s], ls)"
  by (auto simp: after_first_def step_simps in_field_simps start_field_simps start_record_simps)

lemma after_first_newline:
  "after_first cfg s ls \<Longrightarrow> s \<noteq> [] \<Longrightarrow> \<not> list_all is_blank s \<Longrightarrow>
     step cfg LF = (START_RECORD, [], [], [s] # ls)"
  by (auto simp: after_first_def step_simps in_field_simps)

lemma run_first:
  assumes "safe qcr s"
  shows "after_first (foldl step (START_RECORD, [], [], ls) (write_field qcr s)) s ls"
proof (cases "list_ex (special qcr) s")
  case True
  then show ?thesis
    by (simp add: write_field_quoted step_simps start_record_simps start_field_simps
          run_in_quoted after_first_def)
next
  case False
  with assms have b: "bare s" by (rule unquoted_bare)
  from False have w: "write_field qcr s = s" by (simp add: write_field_def)
  show ?thesis
  proof (cases s)
    case Nil
    with w show ?thesis by (simp add: after_first_def)
  next
    case (Cons c cs)
    with b have c: "c \<noteq> LF" "c \<noteq> CR" "c \<noteq> CHR '',''" "c \<noteq> CHR 0x22" and cs: "bare cs"
      by (simp_all add: bare_Cons)
    show ?thesis
    proof (cases "is_blank c")
      case True
      with c cs w Cons show ?thesis
        by (simp add: step_simps start_record_simps run_whitespace_line after_first_def)
    next
      case False
      with c cs w Cons show ?thesis
        by (simp add: step_simps start_record_simps start_field_simps run_in_field after_first_def)
    qed
  qed
qed

lemma run_rest:
  assumes "gs \<noteq> []" and "list_all (safe qcr) gs"
  shows "foldl step (START_FIELD, [], r, ls) (join_fields (map (write_field qcr) gs) @ [LF])
           = (START_RECORD, [], [], (rev r @ gs) # ls)"
  using assms
proof (induction gs arbitrary: r)
  case Nil
  then show ?case by simp
next
  case (Cons g gs)
  then have g: "safe qcr g" by simp
  note at = run_field [OF g, of r ls]
  show ?case
  proof (cases gs)
    case Nil
    with after_field_newline [OF at] show ?thesis
      by simp
  next
    case (Cons h hs)
    with Cons.prems Cons.IH [of "g # r"]
    have "foldl step (START_FIELD, [], g # r, ls) (join_fields (map (write_field qcr) gs) @ [LF])
            = (START_RECORD, [], [], (rev (g # r) @ gs) # ls)"
      by simp
    with Cons after_field_comma [OF at] show ?thesis
      by simp
  qed
qed

lemma run_row:
  assumes "fs \<noteq> []" and "list_all (safe qcr) fs" and "\<not> lonely_blank fs"
  shows "foldl step (START_RECORD, [], [], ls) (write_row qcr fs) = (START_RECORD, [], [], fs # ls)"
proof (cases "fs = [[]]")
  case True
  then show ?thesis
    by (simp add: write_row_def step_simps start_record_simps start_field_simps in_field_simps)
next
  case False
  from assms(1) obtain s gs where fs: "fs = s # gs" by (cases fs) auto
  with assms(2) have s: "safe qcr s" and gs: "list_all (safe qcr) gs" by simp_all
  note at = run_first [OF s, of ls]
  show ?thesis
  proof (cases gs)
    case Nil
    with fs False assms(3) have "s \<noteq> []" "\<not> list_all is_blank s"
      by (auto simp: lonely_blank_def)
    from after_first_newline [OF at this] fs Nil False show ?thesis
      by (simp add: write_row_def)
  next
    case (Cons h hs)
    with gs have "foldl step (START_FIELD, [], [s], ls) (join_fields (map (write_field qcr) gs) @ [LF])
            = (START_RECORD, [], [], (rev [s] @ gs) # ls)"
      by (intro run_rest) simp_all
    with fs Cons after_first_comma [OF at] show ?thesis
      by (simp add: write_row_def)
  qed
qed

lemma run_rows:
  assumes "list_all (\<lambda>fs. fs \<noteq> [] \<and> list_all (safe qcr) fs \<and> \<not> lonely_blank fs) lines"
  shows "foldl step (START_RECORD, [], [], ls) (concat (map (write_row qcr) lines))
           = (START_RECORD, [], [], rev lines @ ls)"
  using assms by (induction lines arbitrary: ls) (simp_all add: run_row)

lemma tokenize_written:
  assumes "list_all (\<lambda>fs. fs \<noteq> [] \<and> list_all (safe qcr) fs \<and> \<not> lonely_blank fs) lines"
  shows "tokenize (concat (map (write_row qcr) lines)) = Inr lines"
  using run_rows [OF assms, of "[]"] by (simp add: tokenize_def finish_def)

subsection \<open>The reader\<close>

text \<open>
  The fields that the reader takes for a missing value (\<open>na_values\<close> with
  \<open>keep_default_na=True\<close>), the empty field among them.
\<close>

definition na_values :: "string list" where
  "na_values =
     [[], ''#N/A'', ''#N/A N/A'', ''#NA'', ''-1.#IND'', ''-1.#QNAN'', ''-NaN'', ''-nan'',
      ''1.#IND'', ''1.#QNAN'', ''<NA>'', ''N/A'', ''NA'', ''NULL'', ''NaN'', ''None'',
      ''n/a'', ''nan'', ''null'']"

text \<open>
  A column type of the reader (int64, float64, bool): whether a column of the type can hold
  the missing marker, and the value of the type that a field reads as, if any.
\<close>

record 'n dtype =
  holds_na :: bool
  convert :: "string \<Rightarrow> 'n option"

text \<open>
  What is left open: the text that the writer puts for a number, the column types that the
  reader tries, in its order, whether the writer quotes a carriage return, what the reader
  makes of a file with repeated labels or with a line that is shorter or longer than the
  header (renamed labels, padded lines, an index column, or an exception), the paths that
  cannot be written, and which reports, charts and fills raise.
\<close>

record 'n setting =
  repr :: "'n \<Rightarrow> string"
  dtypes :: "'n dtype list"
  quotes_cr :: bool
  irregular :: "string \<Rightarrow> string + 'n frame"
  denied :: "string \<Rightarrow> bool"
  raises :: "view \<Rightarrow> 'n frame \<Rightarrow> string option"
  fills :: "string option \<Rightarrow> 'n frame \<Rightarrow> (string \<times> nat list) option"

text \<open>
  The writer: the missing marker as the empty field (\<open>na_rep\<close>), a string as it is; with
  \<open>index=False\<close> the first line is the labels and every other line the cells of a row.
\<close>

definition cell_text :: "'n setting \<Rightarrow> 'n cell \<Rightarrow> string" where
  "cell_text env c = (case c of Missing \<Rightarrow> [] | Text s \<Rightarrow> s | Num n \<Rightarrow> repr env n)"

definition lines_of :: "'n setting \<Rightarrow> 'n frame \<Rightarrow> string list list" where
  "lines_of env df = columns df # map (map (cell_text env)) (rows df)"

definition to_text :: "'n setting \<Rightarrow> 'n frame \<Rightarrow> string" where
  "to_text env df = concat (map (write_row (quotes_cr env)) (lines_of env df))"

text \<open>
  The reader: the first line is the header, and an empty label is named after its position.
  A column gets the first type that all its fields fit: a missing-value field fits a type
  that holds the missing marker, any other field fits a type that reads it. With no such
  type the column keeps its fields as strings. A missing-value field is read as the missing
  marker in every column.
\<close>

fun decimal :: "nat \<Rightarrow> string" where
  "decimal n =
     (if n < 10 then [''0123456789'' ! n]
      else decimal (n div 10) @ [''0123456789'' ! (n mod 10)])"

definition name_labels :: "string list \<Rightarrow> string list" where
  "name_labels header =
     map (\<lambda>(j, h). if h = [] then ''Unnamed: '' @ decimal j else h) (enumerate 0 header)"

definition column_fields :: "string list list \<Rightarrow> nat \<Rightarrow> string list" where
  "column_fields records j = map (\<lambda>r. r ! j) records"

definition fits :: "'n dtype \<Rightarrow> string list \<Rightarrow> bool" where
  "fits d fs =
     list_all (\<lambda>s. if s \<in> set na_values then holds_na d else convert d s \<noteq> None) fs"

definition read_field :: "'n dtype option \<Rightarrow> string \<Rightarrow> 'n cell" where
  "read_field t s =
     (if s \<in> set na_values then Missing
      else case t of
             None \<Rightarrow> Text s
           | Some d \<Rightarrow> (case convert d s of Some n \<Rightarrow> Num n | None \<Rightarrow> Text s))"

definition frame_of_csv :: "'n dtype list \<Rightarrow> string list \<Rightarrow> string list list \<Rightarrow> 'n frame" where
  "frame_of_csv ds labels records =
     \<lparr>columns = labels,
      rows = map (\<lambda>r. map (\<lambda>j. read_field (find (\<lambda>d. fits d (column_fields records j)) ds) (r ! j))
                         [0..<length labels]) records\<rparr>"

definition of_text :: "'n setting \<Rightarrow> string \<Rightarrow> string + 'n frame" where
  "of_text env text =
     (case tokenize text of
        Inl e \<Rightarrow> Inl e
      | Inr [] \<Rightarrow> Inl ''No columns to parse from file''
      | Inr (header # records) \<Rightarrow>
          if distinct (name_labels header) \<and> list_all (\<lambda>r. length r = length header) records
          then Inr (frame_of_csv (dtypes env) (name_labels header) records)
          else irregular env text)"

text \<open>The two calls on a disk that maps a path to the text of the file under it.\<close>

definition pandas :: "'n setting \<Rightarrow> ('n, string \<rightharpoonup> string) lib" where
  "pandas env =
     \<lparr>read_csv = (\<lambda>d p. case d p of
                     None \<Rightarrow> Inl ''No such file or directory''
                   | Some text \<Rightarrow> of_text env text),
      to_csv = (\<lambda>df p d. if denied env p then (Some ''Permission denied'', d)
                          else (None, d(p \<mapsto> to_text env df))),
      render = raises env,
      fillna_raises = fills env\<rparr>"

subsection \<open>Saving, then loading\<close>

text \<open>
  The first answer goes to the save dialog, the second to the open dialog. The result is
  what \<open>load_csv\<close> returns.
\<close>

definition save_then_load ::
  "('n, 'fs) lib \<Rightarrow> 'n frame \<Rightarrow> ('n, 'fs) world \<Rightarrow> 'n frame option option" where
  "save_then_load lib df w =
     (case save_csv lib df w of None \<Rightarrow> None
      | Some w1 \<Rightarrow> map_option fst (load_csv lib w1))"

text \<open>
  A frame is storable when all labels and all texts of cells are safe, and neither the
  header nor a row is written as a lonely blank.
\<close>

definition storable :: "'n setting \<Rightarrow> 'n frame \<Rightarrow> bool" where
  "storable env df =
     list_all (\<lambda>fs. list_all (safe (quotes_cr env)) fs \<and> \<not> lonely_blank fs) (lines_of env df)"

text \<open>The type that the reader gives to a column of the frame as it is written.\<close>

definition column_type :: "'n setting \<Rightarrow> 'n frame \<Rightarrow> nat \<Rightarrow> 'n dtype option" where
  "column_type env df j =
     find (\<lambda>d. fits d (map (\<lambda>r. cell_text env (r ! j)) (rows df))) (dtypes env)"

text \<open>
  A cell is kept in a column of that type when its text is not taken for a missing value
  and, if the column gets a type, what the type reads from the text is written back as that
  text (a string), or is the number itself (a number).
\<close>

definition keeps :: "'n setting \<Rightarrow> 'n dtype option \<Rightarrow> 'n cell \<Rightarrow> bool" where
  "keeps env t c =
     (case c of
        Missing \<Rightarrow> True
      | Text s \<Rightarrow>
          s \<notin> set na_values
          \<and> (case t of None \<Rightarrow> True
              | Some d \<Rightarrow> (case convert d s of None \<Rightarrow> True | Some n \<Rightarrow> repr env n = s))
      | Num n \<Rightarrow>
          repr env n \<notin> set na_values
          \<and> (case t of None \<Rightarrow> True
              | Some d \<Rightarrow> (case convert d (repr env n) of None \<Rightarrow> True | Some m \<Rightarrow> m = n)))"

text \<open>
  Equal up to the type: the same cell, or a number on one side and the text that is written
  for it on the other.
\<close>

definition up_to_type :: "'n setting \<Rightarrow> 'n cell \<Rightarrow> 'n cell \<Rightarrow> bool" where
  "up_to_type env c c' =
     (case c of
        Missing \<Rightarrow> (case c' of Missing \<Rightarrow> True | _ \<Rightarrow> False)
      | Text s \<Rightarrow> (case c' of Missing \<Rightarrow> False | Text s' \<Rightarrow> s' = s | Num n' \<Rightarrow> repr env n' = s)
      | Num n \<Rightarrow> (case c' of Missing \<Rightarrow> False | Text s' \<Rightarrow> s' = repr env n | Num n' \<Rightarrow> n' = n))"

lemma name_labels_same: "[] \<notin> set header \<Longrightarrow> name_labels header = header"
proof -
  assume a: "[] \<notin> set header"
  have "map (\<lambda>(j, h). if h = [] then ''Unnamed: '' @ decimal j else h) (enumerate k header) = header"
    for k
    using a by (induction header arbitrary: k) auto
  then show ?thesis
    by (simp add: name_labels_def)
qed

lemma empty_is_na: "[] \<in> set na_values"
  by (simp add: na_values_def)

lemma read_field_kept:
  assumes "keeps env t c"
    and "\<And>d. t = Some d \<Longrightarrow> c \<noteq> Missing \<Longrightarrow> convert d (cell_text env c) \<noteq> None"
  shows "up_to_type env c (read_field t (cell_text env c))"
    and "\<And>n. c = Num n \<Longrightarrow> t \<noteq> None \<Longrightarrow> read_field t (cell_text env c) = Num n"
    and "\<And>s. c = Text s \<Longrightarrow> t = None \<Longrightarrow> read_field t (cell_text env c) = Text s"
proof -
  show "up_to_type env c (read_field t (cell_text env c))"
  proof (cases c)
    case Missing
    then show ?thesis
      by (simp add: up_to_type_def read_field_def cell_text_def empty_is_na)
  next
    case (Text s)
    with assms(1) show ?thesis
      by (cases t) (auto simp: keeps_def up_to_type_def read_field_def cell_text_def
            split: option.splits)
  next
    case (Num n)
    with assms(1) show ?thesis
      by (cases t) (auto simp: keeps_def up_to_type_def read_field_def cell_text_def
            split: option.splits)
  qed
next
  fix n
  assume c: "c = Num n" and t: "t \<noteq> None"
  then obtain d where d: "t = Some d" by auto
  with assms(2) c obtain m where "convert d (repr env n) = Some m"
    by (auto simp: cell_text_def)
  with assms(1) c d show "read_field t (cell_text env c) = Num n"
    by (simp add: keeps_def read_field_def cell_text_def)
next
  fix s
  assume "c = Text s" and "t = None"
  with assms(1) show "read_field t (cell_text env c) = Text s"
    by (simp add: keeps_def read_field_def cell_text_def)
qed

lemma tokenize_to_text:
  assumes wf: "wf_frame df" and cols: "columns df \<noteq> []" and st: "storable env df"
  shows "tokenize (to_text env df) = Inr (lines_of env df)"
proof -
  have "fs \<noteq> []" if "fs \<in> set (lines_of env df)" for fs
    using that wf cols by (auto simp: lines_of_def wf_frame_def list_all_iff)
  with st have "list_all (\<lambda>fs. fs \<noteq> [] \<and> list_all (safe (quotes_cr env)) fs \<and> \<not> lonely_blank fs)
                  (lines_of env df)"
    by (simp add: storable_def list_all_iff)
  then show ?thesis
    unfolding to_text_def by (rule tokenize_written)
qed

lemma of_text_to_text:
  assumes wf: "wf_frame df" and cols: "columns df \<noteq> []" and labels: "[] \<notin> set (columns df)"
    and st: "storable env df"
  shows "of_text env (to_text env df)
           = Inr (frame_of_csv (dtypes env) (columns df) (map (map (cell_text env)) (rows df)))"
proof -
  have "list_all (\<lambda>r. length r = length (columns df)) (map (map (cell_text env)) (rows df))"
    using wf by (simp add: wf_frame_def list_all_iff)
  moreover have "distinct (name_labels (columns df))"
    using wf labels by (simp add: name_labels_same wf_frame_def)
  ultimately show ?thesis
    using tokenize_to_text [OF wf cols st] labels
    by (simp add: of_text_def lines_of_def name_labels_same)
qed

lemma fits_member:
  "find (\<lambda>d. fits d fs) ds = Some d \<Longrightarrow> s \<in> set fs \<Longrightarrow> s \<notin> set na_values \<Longrightarrow> convert d s \<noteq> None"
  by (auto simp: find_Some_iff fits_def list_all_iff)

text \<open>
  C5, as the defaults of the two calls allow it. Take a frame as the reader builds it, with
  at least one column and no empty label, that is storable and whose cells are all kept by
  the types of their columns, and a path that can be written. Saving the frame to the path
  and loading the path returns a frame with the same labels, as many rows and as many cells
  in each row, in which every cell equals the cell of the frame up to the type. A number in
  a column that gets a type comes back as the same number, and a string in a column that
  gets none as the same string.
\<close>

theorem save_then_load_keeps:
  assumes wf: "wf_frame df" and cols: "columns df \<noteq> []" and labels: "[] \<notin> set (columns df)"
    and st: "storable env df"
    and kept: "\<forall>j < length (columns df). \<forall>r \<in> set (rows df). keeps env (column_type env df j) (r ! j)"
    and ans: "answers w = Some p # Some p # rest" and p: "p \<noteq> []" "\<not> denied env p"
  shows "\<exists>df'. save_then_load (pandas env) df w = Some (Some df')
           \<and> columns df' = columns df
           \<and> length (rows df') = length (rows df)
           \<and> (\<forall>i < length (rows df).
                 length (rows df' ! i) = length (rows df ! i)
                 \<and> (\<forall>j < length (rows df ! i).
                       up_to_type env (rows df ! i ! j) (rows df' ! i ! j)
                       \<and> (\<forall>n. rows df ! i ! j = Num n \<and> column_type env df j \<noteq> None
                              \<longrightarrow> rows df' ! i ! j = Num n)
                       \<and> (\<forall>s. rows df ! i ! j = Text s \<and> column_type env df j = None
                              \<longrightarrow> rows df' ! i ! j = Text s)))"
proof -
  let ?records = "map (map (cell_text env)) (rows df)"
  let ?df' = "frame_of_csv (dtypes env) (columns df) ?records"
  have run: "save_then_load (pandas env) df w = Some (Some ?df')"
    using ans p of_text_to_text [OF wf cols labels st]
    by (simp add: save_then_load_def save_csv_def load_csv_def askfilename_def askstring_def
          pandas_def emit_def)
  have c: "columns ?df' = columns df"
    by (simp add: frame_of_csv_def)
  have n: "length (rows ?df') = length (rows df)"
    by (simp add: frame_of_csv_def)
  have rect: "length r = length (columns df)" if "r \<in> set (rows df)" for r
    using wf that by (simp add: wf_frame_def list_all_iff)
  have col: "column_fields ?records j = map (\<lambda>r. cell_text env (r ! j)) (rows df)"
    if "j < length (columns df)" for j
    using that rect by (simp add: column_fields_def)
  have cellwise: "length (rows ?df' ! i) = length (rows df ! i)
                 \<and> (\<forall>j < length (rows df ! i).
                       up_to_type env (rows df ! i ! j) (rows ?df' ! i ! j)
                       \<and> (\<forall>n. rows df ! i ! j = Num n \<and> column_type env df j \<noteq> None
                              \<longrightarrow> rows ?df' ! i ! j = Num n)
                       \<and> (\<forall>s. rows df ! i ! j = Text s \<and> column_type env df j = None
                              \<longrightarrow> rows ?df' ! i ! j = Text s))"
    if i: "i < length (rows df)" for i
  proof -
    from i have mem: "rows df ! i \<in> set (rows df)" by simp
    then have len: "length (rows df ! i) = length (columns df)" by (rule rect)
    have "up_to_type env (rows df ! i ! j) (rows ?df' ! i ! j)
            \<and> (\<forall>n. rows df ! i ! j = Num n \<and> column_type env df j \<noteq> None
                   \<longrightarrow> rows ?df' ! i ! j = Num n)
            \<and> (\<forall>s. rows df ! i ! j = Text s \<and> column_type env df j = None
                   \<longrightarrow> rows ?df' ! i ! j = Text s)"
      if j: "j < length (rows df ! i)" for j
    proof -
      let ?c = "rows df ! i ! j"
      let ?t = "column_type env df j"
      from j len have jc: "j < length (columns df)" by simp
      from kept jc mem have k: "keeps env ?t ?c" by blast
      have conv: "convert d (cell_text env ?c) \<noteq> None" if "?t = Some d" "?c \<noteq> Missing" for d
      proof -
        from k that(2) have na: "cell_text env ?c \<notin> set na_values"
          by (cases ?c) (simp_all add: keeps_def cell_text_def)
        from mem have m: "cell_text env ?c \<in> set (map (\<lambda>r. cell_text env (r ! j)) (rows df))"
          by auto
        from that(1)
        have f: "find (\<lambda>d. fits d (map (\<lambda>r. cell_text env (r ! j)) (rows df))) (dtypes env) = Some d"
          by (simp add: column_type_def)
        show ?thesis
          by (rule fits_member [OF f m na])
      qed
      have cell: "rows ?df' ! i ! j = read_field ?t (cell_text env ?c)"
        using i j jc len by (simp add: frame_of_csv_def col column_type_def)
      from read_field_kept [OF k conv] show ?thesis
        unfolding cell by blast
    qed
    moreover have "length (rows ?df' ! i) = length (rows df ! i)"
      using i len by (simp add: frame_of_csv_def)
    ultimately show ?thesis by blast
  qed
  from run c n cellwise show ?thesis by blast
qed

subsection \<open>Runs\<close>

text \<open>
  A setting to run the two calls in: the numbers are the integers, written and read in
  decimal, in one column type that holds the missing marker; a carriage return is not
  quoted; every path can be written and nothing raises.
\<close>

definition str_int :: "int \<Rightarrow> string" where
  "str_int i = (if i < 0 then CHR ''-'' # decimal (nat (- i)) else decimal (nat i))"

definition read_nat :: "string \<Rightarrow> nat option" where
  "read_nat s =
     (if s \<noteq> [] \<and> list_all (\<lambda>c. c \<in> set ''0123456789'') s
      then Some (foldl (\<lambda>a c. 10 * a + (of_char c - 48)) 0 s) else None)"

definition read_int :: "string \<Rightarrow> int option" where
  "read_int s =
     (case s of
        CHR ''-'' # ds \<Rightarrow> map_option (\<lambda>n. - int n) (read_nat ds)
      | _ \<Rightarrow> map_option int (read_nat s))"

definition integers :: "int setting" where
  "integers =
     \<lparr>repr = str_int,
      dtypes = [\<lparr>holds_na = True, convert = read_int\<rparr>],
      quotes_cr = False,
      irregular = (\<lambda>text. Inl ''Error tokenizing data''),
      denied = (\<lambda>p. False),
      raises = (\<lambda>v df. None),
      fills = (\<lambda>v df. None)\<rparr>"

definition towns :: "int frame" where
  "towns = \<lparr>columns = [''name'', ''city''],
            rows = [[Text ''ann'', Text ''oslo''], [Text ''bob'', Missing]]\<rparr>"

definition saver :: "string \<Rightarrow> (int, string \<rightharpoonup> string) world" where
  "saver p = \<lparr>answers = [Some p, Some p], disk = Map.empty, trace = []\<rparr>"

text \<open>
  The claim as the specification states it fails after a fill with the literal \<open>NA\<close>. The
  frame \<open>towns\<close> has one missing cell; the fill puts the string \<open>NA\<close> there; the string is
  written as the field \<open>NA\<close>, which the reader takes for a missing value: saving and
  loading the filled frame returns \<open>towns\<close>, with the cell missing again.
\<close>

theorem fill_na_is_lost:
  "map_option fst
     (handle_missing_data (pandas integers) towns
        \<lparr>answers = [Some ''fill'', Some ''NA''], disk = Map.empty, trace = []\<rparr>)
   = Some \<lparr>columns = [''name'', ''city''],
           rows = [[Text ''ann'', Text ''oslo''], [Text ''bob'', Text ''NA'']]\<rparr>
   \<and> save_then_load (pandas integers)
       \<lparr>columns = [''name'', ''city''],
        rows = [[Text ''ann'', Text ''oslo''], [Text ''bob'', Text ''NA'']]\<rparr>
       (saver ''out.csv'')
     = Some (Some \<lparr>columns = [''name'', ''city''],
                   rows = [[Text ''ann'', Text ''oslo''], [Text ''bob'', Missing]]\<rparr>)"
  by code_simp

text \<open>
  Why the other conditions are there. A string of digits alone in its column is read as a
  number, and \<open>007\<close> comes back as 7. A line of blanks is skipped, so the row is gone. An
  empty label comes back named. A carriage return that is written without quotes ends the
  line, so the tokenizer returns three lines for the two that were written. A frame without
  a column is not among the frames of the script: the reader builds none.
\<close>

lemma leading_zeros_are_lost:
  "save_then_load (pandas integers) \<lparr>columns = [''code''], rows = [[Text ''007'']]\<rparr>
     (saver ''out.csv'')
   = Some (Some \<lparr>columns = [''code''], rows = [[Num 7]]\<rparr>)"
  by code_simp

lemma line_of_blanks_is_lost:
  "save_then_load (pandas integers) \<lparr>columns = [''note''], rows = [[Text ''x''], [Text '' '']]\<rparr>
     (saver ''out.csv'')
   = Some (Some \<lparr>columns = [''note''], rows = [[Text ''x'']]\<rparr>)"
  by code_simp

lemma empty_label_is_named:
  "save_then_load (pandas integers) \<lparr>columns = [[], ''b''], rows = [[Text ''x'', Text ''y'']]\<rparr>
     (saver ''out.csv'')
   = Some (Some \<lparr>columns = [''Unnamed: 0'', ''b''], rows = [[Text ''x'', Text ''y'']]\<rparr>)"
  by code_simp

lemma carriage_return_ends_line:
  "tokenize (to_text integers
       \<lparr>columns = [''a'', ''b''],
        rows = [[Text [CHR ''x'', CHR 0x0D, CHR ''y''], Text ''z'']]\<rparr>)
   = Inr [[''a'', ''b''], [''x''], [''y'', ''z'']]"
  by code_simp

theorem save_then_load_keeps_witness:
  "save_then_load (pandas integers) example_frame (saver ''out.csv'') = Some (Some example_frame)
   \<and> storable integers example_frame
   \<and> column_type integers example_frame 2 \<noteq> None
   \<and> column_type integers example_frame 1 = None"
proof -
  have cols: "columns example_frame \<noteq> []" and labels: "[] \<notin> set (columns example_frame)"
    by (simp_all add: example_frame_def)
  have st: "storable integers example_frame"
    by code_simp
  have "list_all (\<lambda>j. list_all (\<lambda>r. keeps integers (column_type integers example_frame j) (r ! j))
                         (rows example_frame)) [0..<length (columns example_frame)]"
    by code_simp
  then have kept: "\<forall>j < length (columns example_frame). \<forall>r \<in> set (rows example_frame).
                     keeps integers (column_type integers example_frame j) (r ! j)"
    by (simp add: list_all_iff)
  have ans: "answers (saver ''out.csv'') = Some ''out.csv'' # Some ''out.csv'' # []"
    by (simp add: saver_def)
  have p: "''out.csv'' \<noteq> []" "\<not> denied integers ''out.csv''"
    by (simp_all add: integers_def)
  from save_then_load_keeps [OF wf_example_frame cols labels st kept ans p]
  obtain df' where run: "save_then_load (pandas integers) example_frame (saver ''out.csv'') = Some (Some df')"
    by blast
  have "save_then_load (pandas integers) example_frame (saver ''out.csv'') = Some (Some example_frame)"
    by code_simp
  moreover have "column_type integers example_frame 2 \<noteq> None"
    by code_simp
  moreover have "column_type integers example_frame 1 = None"
    by code_simp
  ultimately show ?thesis
    using run st by simp
qed

end
